theory Spec2Isabelle
  imports Main "HOL-Library.Sublist" "HOL-Library.Multiset"
begin

section \<open>Strings of the JavaScript runtime\<close>

text \<open>
  A JavaScript string is a sequence of UTF-16 code units and \<open>length\<close> counts code units,
  so a string is modelled as a list of code units. ASCII literals are written through
  \<open>js\<close>; the Japanese literals of the source are given by their code units.
\<close>

type_synonym code_unit = nat
type_synonym jsstring = "code_unit list"

definition js :: "string \<Rightarrow> jsstring" where
  "js s = map of_char s"

text \<open>Decimal rendering of a number inside a template literal.\<close>

fun digits :: "nat \<Rightarrow> jsstring" where
  "digits n = (if n < 10 then [48 + n] else digits (n div 10) @ [48 + n mod 10])"

declare digits.simps [simp del]

definition show_int :: "int \<Rightarrow> jsstring" where
  "show_int i = (if i < 0 then 45 # digits (nat (- i)) else digits (nat i))"

text \<open>
  \<open>String.prototype.trim\<close> removes WhiteSpace and LineTerminator code units (ECMAScript
  11.2 and 11.3) from both ends.
\<close>

definition js_whitespace :: "code_unit \<Rightarrow> bool" where
  "js_whitespace c \<longleftrightarrow>
     c = 0x9 \<or> c = 0xA \<or> c = 0xB \<or> c = 0xC \<or> c = 0xD \<or> c = 0x20 \<or> c = 0xA0 \<or>
     c = 0x1680 \<or> (0x2000 \<le> c \<and> c \<le> 0x200A) \<or> c = 0x2028 \<or> c = 0x2029 \<or>
     c = 0x202F \<or> c = 0x205F \<or> c = 0x3000 \<or> c = 0xFEFF"

definition trim :: "jsstring \<Rightarrow> jsstring" where
  "trim s = rev (dropWhile js_whitespace (rev (dropWhile js_whitespace s)))"

text \<open>\<open>s.replace(pat, rep)\<close> with a string pattern: only the first occurrence is replaced.\<close>

fun replace_first :: "jsstring \<Rightarrow> jsstring \<Rightarrow> jsstring \<Rightarrow> jsstring" where
  "replace_first pat rep [] = (if pat = [] then rep else [])"
| "replace_first pat rep (c # cs) =
     (if prefix pat (c # cs) then rep @ drop (length pat) (c # cs)
      else c # replace_first pat rep cs)"

subsection \<open>Tables of the platform\<close>

text \<open>
  Four things the source uses are fixed by the JavaScript engine and by Node, not by the
  repository: which code units the class \<^verbatim>\<open>[\w\u00c0-\u024f\u1e00-\u1eff]\<close> accepts under
  the flag \<open>i\<close> (case folding adds code units outside the written ranges),
  \<open>String.prototype.toLowerCase\<close>, the hexadecimal digit table of \<open>Buffer.from(s, 'hex')\<close>
  and \<open>crypto.createHmac('sha256', key).update(msg).digest('hex')\<close>. They are parameters
  of the model, so every general theorem holds for the real tables; \<open>node_ascii\<close> below is
  the instance used for evaluation. The instance agrees with the platform on ASCII text,
  where it is evaluated: outside ASCII the class under the flag \<open>i\<close> and \<open>toLowerCase\<close>
  fold further letters, which the instance leaves alone. Its digit table is Node's: the
  decoder looks a code unit up by its low byte only.
\<close>

record platform =
  tag_char :: "code_unit \<Rightarrow> bool"
  toLowerCase :: "jsstring \<Rightarrow> jsstring"
  unhex :: "code_unit \<Rightarrow> nat option"
  hmac_sha256_hex :: "jsstring \<Rightarrow> jsstring \<Rightarrow> jsstring"

definition word_class :: "code_unit \<Rightarrow> bool" where
  "word_class c \<longleftrightarrow>
     (0x30 \<le> c \<and> c \<le> 0x39) \<or> (0x41 \<le> c \<and> c \<le> 0x5A) \<or> c = 0x5F \<or>
     (0x61 \<le> c \<and> c \<le> 0x7A) \<or> (0xC0 \<le> c \<and> c \<le> 0x24F) \<or> (0x1E00 \<le> c \<and> c \<le> 0x1EFF)"

definition ascii_lower :: "jsstring \<Rightarrow> jsstring" where
  "ascii_lower s = map (\<lambda>c. if 0x41 \<le> c \<and> c \<le> 0x5A then c + 0x20 else c) s"

definition hex_digit :: "code_unit \<Rightarrow> nat option" where
  "hex_digit c =
     (if 0x30 \<le> c \<and> c \<le> 0x39 then Some (c - 0x30)
      else if 0x41 \<le> c \<and> c \<le> 0x46 then Some (c - 0x37)
      else if 0x61 \<le> c \<and> c \<le> 0x66 then Some (c - 0x57)
      else None)"

definition low_byte_hex :: "code_unit \<Rightarrow> nat option" where
  "low_byte_hex c = hex_digit (c mod 256)"

text \<open>
  The digest of the instance is the HMAC-SHA256 test vector of RFC 4231 (test case 2: key
  \<open>Jefe\<close>, data \<open>what do ya want for nothing?\<close>); the instance is only evaluated at that
  key and payload.
\<close>

definition rfc4231_digest :: jsstring where
  "rfc4231_digest = js ''5bdcc146bf60754e6a042426089575c75a003f089d2739839dec58b964ec3843''"

definition node_ascii :: platform where
  "node_ascii = \<lparr>tag_char = word_class, toLowerCase = ascii_lower, unhex = low_byte_hex,
     hmac_sha256_hex = (\<lambda>key msg. rfc4231_digest)\<rparr>"

subsection \<open>The hashtag pattern\<close>

text \<open>
  \<^verbatim>\<open>/#[\w\u00c0-\u024f\u1e00-\u1eff]+/gi\<close>: a match starts at a \<open>#\<close> that is followed by a
  class code unit and takes the longest run of class code units; the scan goes on behind
  the match. \<open>extractHashtags\<close> is \<open>text.match(re) || []\<close> on a present, non-empty text,
  \<open>strip_tags\<close> is \<open>text.replace(re, '')\<close>.
\<close>

definition starts_tag :: "(code_unit \<Rightarrow> bool) \<Rightarrow> code_unit \<Rightarrow> jsstring \<Rightarrow> bool" where
  "starts_tag wc c cs \<longleftrightarrow> c = 0x23 \<and> (case cs of [] \<Rightarrow> False | d # _ \<Rightarrow> wc d)"

function match_tags :: "(code_unit \<Rightarrow> bool) \<Rightarrow> jsstring \<Rightarrow> jsstring list" where
  "match_tags wc [] = []"
| "match_tags wc (c # cs) =
     (if starts_tag wc c cs then (c # takeWhile wc cs) # match_tags wc (dropWhile wc cs)
      else match_tags wc cs)"
  by pat_completeness auto
termination
  by (relation "measure (\<lambda>(wc, s). length s)") (auto simp: length_dropWhile_le less_Suc_eq_le)

function strip_tags :: "(code_unit \<Rightarrow> bool) \<Rightarrow> jsstring \<Rightarrow> jsstring" where
  "strip_tags wc [] = []"
| "strip_tags wc (c # cs) =
     (if starts_tag wc c cs then strip_tags wc (dropWhile wc cs)
      else c # strip_tags wc cs)"
  by pat_completeness auto
termination
  by (relation "measure (\<lambda>(wc, s). length s)") (auto simp: length_dropWhile_le less_Suc_eq_le)

definition extractHashtags :: "platform \<Rightarrow> jsstring option \<Rightarrow> jsstring list" where
  "extractHashtags P text =
     (case text of None \<Rightarrow> [] | Some t \<Rightarrow> if t = [] then [] else match_tags (tag_char P) t)"

section \<open>Data model\<close>

text \<open>
  The interfaces of \<open>types.ts\<close>. A timestamp string is represented by the instant that
  \<open>new Date(s).getTime()\<close> yields, in milliseconds; for a candidate it is \<open>None\<close> when the
  string does not parse (the source then computes with NaN). Optional fields are options.
\<close>

datatype media_kind = IMAGE | VIDEO | CAROUSEL_ALBUM

record InstagramPost =
  post_id :: jsstring
  caption :: "jsstring option"
  media_type :: media_kind
  media_url :: "jsstring option"
  permalink :: jsstring
  timestamp :: "int option"

text \<open>
  The reason of a verdict is a template literal of the source; it is kept as the template
  chosen together with the values interpolated into it.
\<close>

datatype reason =
    TargetHashtagMissing jsstring
  | MediaTypeUnsupported media_kind
  | PostTooOld int int
  | NoCaption
  | CaptionTooShort
  | TooManyHashtags nat nat

record FilterResult =
  shouldSync :: bool
  matchedHashtags :: "jsstring list"
  reason :: "reason option"

datatype sync_status = success | failed | skipped

record SyncLog =
  sync_id :: jsstring
  sync_timestamp :: int
  instagramPostId :: jsstring
  instagramCaption :: "jsstring option"
  instagramMediaUrl :: "jsstring option"
  gbpPostId :: "jsstring option"
  status :: sync_status
  error_text :: "jsstring option"
  hashtags :: "jsstring list"
  syncDuration :: int

datatype media_format = PHOTO
datatype topic_type = STANDARD | EVENT | OFFER
datatype action_type = LEARN_MORE | CALL | BOOK | ORDER | SHOP | SIGN_UP

record media_item =
  mediaFormat :: media_format
  sourceUrl :: jsstring

record call_to_action =
  actionType :: action_type
  url :: "jsstring option"

record GBPLocalPost =
  languageCode :: jsstring
  summary :: jsstring
  media :: "media_item list option"
  topicType :: topic_type
  callToAction :: "call_to_action option"

section \<open>The world outside the process\<close>

text \<open>
  Everything the source does beyond computing is threaded through a \<open>world\<close>: the wall
  clock (\<open>clock w n\<close> is the n-th reading of \<open>Date.now()\<close> or \<open>new Date()\<close>, \<open>ticks\<close> counts the
  readings taken), the answers of the destination platform, the ledger file
  (\<open>None\<close>: the file does not exist; a line is blank, undecodable, or one record), the
  faults of the file system, and the trace of effects the process has caused.
\<close>

datatype log_level = LDebug | LInfo | LWarn | LError

datatype line = Blank | Garbage | Entry SyncLog

datatype effect =
    Log log_level
  | TokenRequest
  | CreatePostRequest GBPLocalPost bool jsstring
  | AppendFile SyncLog

record world =
  clock :: "nat \<Rightarrow> int"
  ticks :: nat
  trace :: "effect list"
  token_reply :: "jsstring + jsstring \<times> int"
  post_reply :: "jsstring + jsstring"
  ledger :: "line list option"
  read_fault :: "string option"
  append_fault :: bool

definition Date_now :: "world \<Rightarrow> int \<times> world" where
  "Date_now w = (clock w (ticks w), w\<lparr>ticks := Suc (ticks w)\<rparr>)"

definition emit :: "effect \<Rightarrow> world \<Rightarrow> world" where
  "emit e w = w\<lparr>trace := trace w @ [e]\<rparr>"

section \<open>Filter Engine (\<open>PostFilter\<close>)\<close>

record PostFilter =
  targetHashtag :: jsstring

text \<open>The constructor lower-cases the configured target tag \<open>appConfig.sync.targetHashtag\<close>.\<close>

definition new_PostFilter :: "platform \<Rightarrow> jsstring \<Rightarrow> PostFilter" where
  "new_PostFilter P configured = \<lparr>targetHashtag = toLowerCase P configured\<rparr>"

definition pass :: FilterResult where
  "pass = \<lparr>shouldSync = True, matchedHashtags = [], reason = None\<rparr>"

definition reject :: "reason \<Rightarrow> FilterResult" where
  "reject r = \<lparr>shouldSync = False, matchedHashtags = [], reason = Some r\<rparr>"

definition filterByMediaType :: "InstagramPost \<Rightarrow> FilterResult" where
  "filterByMediaType post =
     (if media_type post \<notin> set [IMAGE, CAROUSEL_ALBUM]
      then reject (MediaTypeUnsupported (media_type post))
      else pass)"

text \<open>
  \<open>filterByAge\<close> reads the wall clock itself (\<open>new Date()\<close>); \<open>maxAgeHours\<close> is the default 24.
  \<open>ageHours > 24\<close> on the quotient by 3600000 is \<open>age > 86400000\<close> on the milliseconds, and
  \<open>Math.round(ageHours)\<close> is the floor of \<open>ageHours + 1/2\<close>. A timestamp that does not parse
  makes \<open>ageHours\<close> NaN, and the comparison false.
\<close>

definition filterByAge :: "world \<Rightarrow> InstagramPost \<Rightarrow> FilterResult \<times> world" where
  "filterByAge w post =
     (let (now, w1) = Date_now w in
      case timestamp post of
        None \<Rightarrow> (pass, w1)
      | Some postDate \<Rightarrow>
          (let age = now - postDate in
           if age > 24 * 3600000
           then (reject (PostTooOld ((2 * age + 3600000) div 7200000) 24), w1)
           else (pass, w1)))"

definition filterByContent :: "platform \<Rightarrow> InstagramPost \<Rightarrow> FilterResult" where
  "filterByContent P post =
     (case caption post of
        None \<Rightarrow> reject NoCaption
      | Some c \<Rightarrow>
          if c = [] \<or> length (trim c) = 0 then reject NoCaption
          else if length (trim (strip_tags (tag_char P) c)) < 10 then reject CaptionTooShort
          else if length (extractHashtags P (caption post)) > 20
            then reject (TooManyHashtags (length (extractHashtags P (caption post))) 20)
          else pass)"

text \<open>
  \<open>filterPost\<close>: the three additional filters are all evaluated when the array literal is
  built, so the clock is read once whenever the target tag is present; the first failing
  one is returned. Every path calls the application logger.
\<close>

definition filterPost ::
  "platform \<Rightarrow> jsstring \<Rightarrow> PostFilter \<Rightarrow> world \<Rightarrow> InstagramPost \<Rightarrow> FilterResult \<times> world" where
  "filterPost P configured this w post =
     (let w1 = emit (Log LDebug) w;
          tags = extractHashtags P (caption post);
          normalizedHashtags = map (toLowerCase P) tags;
          hasTargetHashtag = (targetHashtag this \<in> set normalizedHashtags)
      in if \<not> hasTargetHashtag
         then (reject (TargetHashtagMissing configured), emit (Log LDebug) w1)
         else
           (let byMedia = filterByMediaType post;
                (byAge, w2) = filterByAge w1 post;
                byContent = filterByContent P post
            in case filter (\<lambda>f. \<not> shouldSync f) [byMedia, byAge, byContent] of
                 f # _ \<Rightarrow> (f, emit (Log LDebug) w2)
               | [] \<Rightarrow>
                   (\<lparr>shouldSync = True, matchedHashtags = tags, reason = None\<rparr>,
                    emit (Log LInfo) w2)))"

section \<open>Token Lifecycle Manager and Publisher (\<open>GoogleBusinessProfileAPI\<close>)\<close>

text \<open>The two fields of the instance: \<open>accessToken\<close> (\<open>None\<close> is \<open>null\<close>) and \<open>tokenExpiresAt\<close>.\<close>

record gbp =
  accessToken :: "jsstring option"
  tokenExpiresAt :: int

definition new_gbp :: gbp where
  "new_gbp = \<lparr>accessToken = None, tokenExpiresAt = 0\<rparr>"

text \<open>The fixed prefixes of the two error messages, as code units.\<close>

definition refresh_failed_prefix :: jsstring where
  "refresh_failed_prefix =
     [0x47, 0x42, 0x50, 0x20, 0x30c8, 0x30fc, 0x30af, 0x30f3, 0x66f4, 0x65b0, 0x306b, 0x5931,
      0x6557, 0x3a, 0x20]"

definition create_failed_prefix :: jsstring where
  "create_failed_prefix =
     [0x47, 0x42, 0x50, 0x20, 0x6295, 0x7a3f, 0x4f5c, 0x6210, 0x306b, 0x5931, 0x6557, 0x3a,
      0x20]"

text \<open>
  \<open>refreshAccessToken\<close>: one request to the token endpoint; on an answer both fields are
  assigned and the token is returned, on a failure nothing is assigned and an error with
  the fixed prefix is thrown (\<open>Inl\<close>).
\<close>

definition refreshAccessToken :: "gbp \<times> world \<Rightarrow> (jsstring + jsstring) \<times> gbp \<times> world" where
  "refreshAccessToken s =
     (let (g, w) = s;
          w1 = emit TokenRequest (emit (Log LDebug) w)
      in case token_reply w1 of
           Inl message \<Rightarrow> (Inl (refresh_failed_prefix @ message), g, emit (Log LError) w1)
         | Inr (access_token, expires_in) \<Rightarrow>
             (let (now, w2) = Date_now w1;
                  g' = g\<lparr>accessToken := Some access_token,
                         tokenExpiresAt := now + expires_in * 1000\<rparr>
              in (Inr access_token, g', emit (Log LInfo) w2)))"

text \<open>
  \<open>!this.accessToken\<close> holds for \<open>null\<close> and for the empty string; \<open>||\<close> reads the clock
  only when a token is held.
\<close>

definition no_token :: "gbp \<Rightarrow> bool" where
  "no_token g \<longleftrightarrow> (case accessToken g of None \<Rightarrow> True | Some t \<Rightarrow> t = [])"

definition getValidAccessToken :: "gbp \<times> world \<Rightarrow> (jsstring + jsstring) \<times> gbp \<times> world" where
  "getValidAccessToken s =
     (let (g, w) = s in
      case accessToken g of
        None \<Rightarrow> refreshAccessToken (g, w)
      | Some held \<Rightarrow>
          if held = [] then refreshAccessToken (g, w)
          else
            (let (now, w1) = Date_now w in
             if now \<ge> tokenExpiresAt g - 60000 then refreshAccessToken (g, w1)
             else (Inr held, g, w1)))"

subsection \<open>Construction of the listing request\<close>

definition default_caption :: jsstring where
  "default_caption = js ''Check out our latest post on Instagram!''"

definition fallback_summary :: jsstring where
  "fallback_summary =
     [0x6700, 0x65b0, 0x306e, 0x6295, 0x7a3f, 0x3092, 0x30c1, 0x30a7, 0x30c3, 0x30af, 0xff01,
      0x8a73, 0x7d30, 0x306f, 0x20, 0x49, 0x6e, 0x73, 0x74, 0x61, 0x67, 0x72, 0x61, 0x6d, 0x20,
      0x3092, 0x3054, 0x89a7, 0x304f, 0x3060, 0x3055, 0x3044, 0x3002]"

definition convertInstagramToGBPPost :: "platform \<Rightarrow> InstagramPost \<Rightarrow> GBPLocalPost" where
  "convertInstagramToGBPPost P instagramPost =
     (let summary0 = (case caption instagramPost of
                        None \<Rightarrow> default_caption
                      | Some c \<Rightarrow> if c = [] then default_caption else c);
          summary1 = trim (strip_tags (tag_char P) summary0);
          summary2 = (if length summary1 > 1500 then take 1497 summary1 @ js ''...''
                      else summary1);
          summary3 = (if summary2 = [] \<or> length summary2 < 10 then fallback_summary
                      else summary2);
          localPost = \<lparr>languageCode = js ''en-US'', summary = summary3, media = None,
                       topicType = STANDARD,
                       callToAction = Some \<lparr>actionType = LEARN_MORE,
                                             url = Some (permalink instagramPost)\<rparr>\<rparr>
      in case media_url instagramPost of
           None \<Rightarrow> localPost
         | Some u \<Rightarrow>
             if u \<noteq> [] \<and> media_type instagramPost = IMAGE
             then localPost\<lparr>media := Some [\<lparr>mediaFormat = PHOTO, sourceUrl = u\<rparr>]\<rparr>
             else localPost)"

text \<open>
  \<open>createLocalPost\<close>: every failure inside the \<open>try\<close>, the refresh included, is rethrown
  with the fixed prefix in front of its message.
\<close>

definition createLocalPost ::
  "platform \<Rightarrow> gbp \<times> world \<Rightarrow> InstagramPost \<Rightarrow> (jsstring + jsstring) \<times> gbp \<times> world" where
  "createLocalPost P s instagramPost =
     (case getValidAccessToken s of
        (Inl message, g, w) \<Rightarrow> (Inl (create_failed_prefix @ message), g, emit (Log LError) w)
      | (Inr token, g, w) \<Rightarrow>
          (let localPost = convertInstagramToGBPPost P instagramPost;
               w1 = emit (CreatePostRequest localPost False token) (emit (Log LDebug) w)
           in case post_reply w1 of
                Inl message \<Rightarrow>
                  (Inl (create_failed_prefix @ message), g, emit (Log LError) w1)
              | Inr name \<Rightarrow> (Inr name, g, emit (Log LInfo) w1)))"

section \<open>Sync Ledger (\<open>SyncLogger\<close>)\<close>

text \<open>
  \<open>logSync\<close> appends one line to the ledger file, creating the file when it is absent. A
  failed write is caught inside \<open>logSync\<close> and only logged.
\<close>

definition logSync :: "world \<Rightarrow> SyncLog \<Rightarrow> world" where
  "logSync w syncLog =
     (let w1 = emit (AppendFile syncLog) w in
      if append_fault w1 then emit (Log LError) w1
      else emit (Log LInfo)
             (w1\<lparr>ledger := Some ((case ledger w1 of None \<Rightarrow> [] | Some ls \<Rightarrow> ls) @
                                   [Entry syncLog])\<rparr>))"

text \<open>
  \<open>fs.access\<close> followed by \<open>fs.readFile\<close>: the error code of the rejection, or the lines of
  the file. An absent file is the code \<open>ENOENT\<close>.
\<close>

definition read_ledger :: "world \<Rightarrow> string + line list" where
  "read_ledger w =
     (case read_fault w of
        Some code \<Rightarrow> Inl code
      | None \<Rightarrow> (case ledger w of None \<Rightarrow> Inl ''ENOENT'' | Some ls \<Rightarrow> Inr ls))"

text \<open>Blank lines are filtered out, a line that \<open>JSON.parse\<close> rejects becomes \<open>null\<close> and is dropped.\<close>

fun decode :: "line list \<Rightarrow> SyncLog list" where
  "decode [] = []"
| "decode (Entry r # ls) = r # decode ls"
| "decode (_ # ls) = decode ls"

text \<open>\<open>Array.prototype.slice(start, end)\<close>, with its relative negative indices.\<close>

definition js_slice :: "'a list \<Rightarrow> int \<Rightarrow> int \<Rightarrow> 'a list" where
  "js_slice xs start fin =
     (let n = int (length xs);
          k = (if start < 0 then max (n + start) 0 else min start n);
          final = (if fin < 0 then max (n + fin) 0 else min fin n)
      in take (nat (final - k)) (drop (nat k) xs))"

text \<open>
  The comparator \<open>(a, b) => time(b) - time(a)\<close> orders by descending instant;
  \<open>Array.prototype.sort\<close> is stable, as \<open>sort_key\<close> is.
\<close>

definition sorted_logs :: "line list \<Rightarrow> SyncLog list" where
  "sorted_logs ls = sort_key (\<lambda>r. - sync_timestamp r) (decode ls)"

definition getSyncLogs :: "world \<Rightarrow> int \<Rightarrow> int \<Rightarrow> (string + SyncLog list) \<times> world" where
  "getSyncLogs w limit offset =
     (case read_ledger w of
        Inr ls \<Rightarrow> (Inr (js_slice (sorted_logs ls) offset (offset + limit)), w)
      | Inl code \<Rightarrow>
          if code = ''ENOENT'' then (Inr [], w)
          else (Inl code, emit (Log LError) w))"

record sync_stats =
  total_count :: nat
  successful_count :: nat
  failed_count :: nat
  skipped_count :: nat
  lastSync :: "int option"

definition getSyncLogStats :: "world \<Rightarrow> sync_stats \<times> world" where
  "getSyncLogStats w =
     (case getSyncLogs w 1000 0 of
        (Inr logs, w1) \<Rightarrow>
          (\<lparr>total_count = length logs,
            successful_count = length (filter (\<lambda>l. status l = success) logs),
            failed_count = length (filter (\<lambda>l. status l = failed) logs),
            skipped_count = length (filter (\<lambda>l. status l = skipped) logs),
            lastSync = (case logs of [] \<Rightarrow> None | l # _ \<Rightarrow> Some (sync_timestamp l))\<rparr>, w1)
      | (Inl code, w1) \<Rightarrow>
          (\<lparr>total_count = 0, successful_count = 0, failed_count = 0, skipped_count = 0,
            lastSync = None\<rparr>, emit (Log LError) w1))"

text \<open>The k-th page of size \<open>limit\<close>, as the query interface asks for it.\<close>

definition page_of :: "world \<Rightarrow> int \<Rightarrow> nat \<Rightarrow> SyncLog list" where
  "page_of w limit k =
     (case fst (getSyncLogs w limit (int k * limit)) of Inr logs \<Rightarrow> logs | Inl code \<Rightarrow> [])"

section \<open>The pipeline for one candidate (\<open>processSinglePost\<close>)\<close>

text \<open>
  The clock is read for \<open>startTime\<close>, for the id, and for the timestamp and the duration
  of the record. The filter does not throw on a typed candidate and \<open>logSync\<close> never
  throws, so the \<open>catch\<close> block is reached exactly from a failing \<open>createLocalPost\<close>.
\<close>

definition processSinglePost ::
  "platform \<Rightarrow> jsstring \<Rightarrow> PostFilter \<Rightarrow> gbp \<times> world \<Rightarrow> InstagramPost \<Rightarrow> gbp \<times> world" where
  "processSinglePost P configured flt s post =
     (let (g, w) = s;
          (startTime, w1) = Date_now w;
          (idTime, w2) = Date_now w1;
          syncId = post_id post @ js ''-'' @ show_int idTime;
          (filterResult, w3) = filterPost P configured flt (emit (Log LInfo) w2) post
      in if \<not> shouldSync filterResult then
           (let (stamp, w4) = Date_now w3;
                (finish, w5) = Date_now w4;
                w6 = logSync w5
                       \<lparr>sync_id = syncId, sync_timestamp = stamp, instagramPostId = post_id post,
                        instagramCaption = caption post, instagramMediaUrl = media_url post,
                        gbpPostId = None, status = skipped, error_text = None,
                        hashtags = matchedHashtags filterResult,
                        syncDuration = finish - startTime\<rparr>
            in (g, emit (Log LInfo) w6))
         else
           (case createLocalPost P (g, w3) post of
              (Inr name, g', w4) \<Rightarrow>
                (let (stamp, w5) = Date_now w4;
                     (finish, w6) = Date_now w5;
                     w7 = logSync w6
                            \<lparr>sync_id = syncId, sync_timestamp = stamp,
                             instagramPostId = post_id post, instagramCaption = caption post,
                             instagramMediaUrl = media_url post, gbpPostId = Some name,
                             status = success, error_text = None,
                             hashtags = matchedHashtags filterResult,
                             syncDuration = finish - startTime\<rparr>;
                     (logged, w8) = Date_now w7
                 in (g', emit (Log LInfo) w8))
            | (Inl message, g', w4) \<Rightarrow>
                (let (stamp, w5) = Date_now w4;
                     (finish, w6) = Date_now w5;
                     w7 = logSync w6
                            \<lparr>sync_id = syncId, sync_timestamp = stamp,
                             instagramPostId = post_id post, instagramCaption = caption post,
                             instagramMediaUrl = media_url post, gbpPostId = None,
                             status = failed, error_text = Some message, hashtags = [],
                             syncDuration = finish - startTime\<rparr>;
                     (logged, w8) = Date_now w7
                 in (g', emit (Log LError) w8))))"

section \<open>Ingestion Gateway: the signature of a push notification\<close>

text \<open>
  \<open>Buffer.from(s, 'hex')\<close> decodes pairs of hexadecimal digits and stops at the first pair
  that is not one; a trailing single digit is dropped. \<open>crypto.timingSafeEqual\<close> throws
  when the two buffers differ in length.
\<close>

fun buffer_from_hex :: "(code_unit \<Rightarrow> nat option) \<Rightarrow> jsstring \<Rightarrow> nat list" where
  "buffer_from_hex uh (a # b # rest) =
     (case (uh a, uh b) of
        (Some x, Some y) \<Rightarrow> (16 * x + y) # buffer_from_hex uh rest
      | _ \<Rightarrow> [])"
| "buffer_from_hex uh _ = []"

datatype js_error = RangeError

definition timingSafeEqual :: "nat list \<Rightarrow> nat list \<Rightarrow> js_error + bool" where
  "timingSafeEqual a b = (if length a \<noteq> length b then Inl RangeError else Inr (a = b))"

definition verifyWebhookSignature ::
  "platform \<Rightarrow> jsstring \<Rightarrow> world \<Rightarrow> jsstring \<Rightarrow> jsstring \<Rightarrow> bool \<times> world" where
  "verifyWebhookSignature P appSecret w payload signature =
     (let expectedSignature = hmac_sha256_hex P appSecret payload;
          providedSignature = replace_first (js ''sha256='') [] signature
      in case timingSafeEqual (buffer_from_hex (unhex P) expectedSignature)
                (buffer_from_hex (unhex P) providedSignature) of
           Inr isValid \<Rightarrow> (isValid, emit (Log LDebug) w)
         | Inl e \<Rightarrow> (False, emit (Log LError) w))"

text \<open>A well-formed hexadecimal string: an even number of the characters 0-9, a-f, A-F.\<close>

definition well_formed_hex :: "jsstring \<Rightarrow> bool" where
  "well_formed_hex s \<longleftrightarrow> even (length s) \<and> list_all (\<lambda>c. hex_digit c \<noteq> None) s"

text \<open>
  What the decoder reads of a string: the longest prefix made of pairs of code units that
  its digit table accepts. \<open>digit_value\<close> is the value the table gives a code unit, and a
  digit table gives values below 16.
\<close>

fun hex_prefix :: "(code_unit \<Rightarrow> nat option) \<Rightarrow> jsstring \<Rightarrow> jsstring" where
  "hex_prefix uh (a # b # rest) =
     (if uh a \<noteq> None \<and> uh b \<noteq> None then a # b # hex_prefix uh rest else [])"
| "hex_prefix uh _ = []"

definition digit_value :: "(code_unit \<Rightarrow> nat option) \<Rightarrow> code_unit \<Rightarrow> nat" where
  "digit_value uh c = (case uh c of Some x \<Rightarrow> x | None \<Rightarrow> 0)"

definition digit_table :: "(code_unit \<Rightarrow> nat option) \<Rightarrow> bool" where
  "digit_table uh \<longleftrightarrow> (\<forall>c x. uh c = Some x \<longrightarrow> x < 16)"

section \<open>Concurrent callers of \<open>getValidAccessToken\<close>\<close>

text \<open>
  An \<open>async\<close> function runs without interruption up to an \<open>await\<close>. A call of
  \<open>getValidAccessToken\<close> therefore has two atomic parts: \<open>begin_call\<close>, the check and, when it
  asks for one, the sending of the refresh request; and \<open>resume_call\<close>, what follows the
  answer of the token endpoint. Calls are interleaved by a schedule that names, step by
  step, the call that runs next.
\<close>

datatype call = NotStarted | AwaitingRefresh | Returned jsstring | Threw jsstring

definition begin_call :: "gbp \<times> world \<Rightarrow> call \<times> gbp \<times> world" where
  "begin_call s =
     (let (g, w) = s in
      case accessToken g of
        None \<Rightarrow> (AwaitingRefresh, g, emit TokenRequest (emit (Log LDebug) w))
      | Some held \<Rightarrow>
          if held = [] then (AwaitingRefresh, g, emit TokenRequest (emit (Log LDebug) w))
          else
            (let (now, w1) = Date_now w in
             if now \<ge> tokenExpiresAt g - 60000
             then (AwaitingRefresh, g, emit TokenRequest (emit (Log LDebug) w1))
             else (Returned held, g, w1)))"

definition resume_call :: "gbp \<times> world \<Rightarrow> call \<times> gbp \<times> world" where
  "resume_call s =
     (let (g, w) = s in
      case token_reply w of
        Inl message \<Rightarrow> (Threw (refresh_failed_prefix @ message), g, emit (Log LError) w)
      | Inr (access_token, expires_in) \<Rightarrow>
          (let (now, w2) = Date_now w;
               g' = g\<lparr>accessToken := Some access_token,
                      tokenExpiresAt := now + expires_in * 1000\<rparr>
           in (Returned access_token, g', emit (Log LInfo) w2)))"




definition token_requests :: "world \<Rightarrow> nat" where
  "token_requests w = length (filter (\<lambda>e. e = TokenRequest) (trace w))"

definition append_requests :: "world \<Rightarrow> SyncLog list" where
  "append_requests w = concat (map (\<lambda>e. case e of AppendFile r \<Rightarrow> [r] | _ \<Rightarrow> []) (trace w))"

section \<open>The construction rule as the specification words it\<close>

text \<open>
  The rule of the specification for the summary, step by step: the caption or the default
  string when it is absent, all tag tokens stripped, truncated with the ellipsis above
  1500 characters, the fallback sentence when the result is empty or shorter than 10.
\<close>

definition spec_summary :: "platform \<Rightarrow> jsstring option \<Rightarrow> jsstring" where
  "spec_summary P cap =
     (let s0 = (case cap of None \<Rightarrow> default_caption | Some c \<Rightarrow> c);
          s1 = strip_tags (tag_char P) s0;
          s2 = (if length s1 > 1500 then take 1497 s1 @ js ''...'' else s1)
      in if s2 = [] \<or> length s2 < 10 then fallback_summary else s2)"


section \<open>Concrete candidates and worlds\<close>

text \<open>
  The inputs at which the properties below are evaluated. \<open>world0\<close>: a clock that starts at
  1700000000000 ms and advances by one millisecond per reading, a token endpoint that
  answers with a token valid for an hour, a destination that accepts the listing, and no
  ledger file yet.
\<close>

definition world0 :: world where
  "world0 = \<lparr>clock = (\<lambda>n. 1700000000000 + int n), ticks = 0, trace = [],
     token_reply = Inr (js ''ya29.a0'', 3600),
     post_reply = Inr (js ''accounts/1/locations/2/localPosts/3''),
     ledger = None, read_fault = None, append_fault = False\<rparr>"

definition configured_tag :: jsstring where
  "configured_tag = js ''#MEO''"

definition meo_filter :: PostFilter where
  "meo_filter = new_PostFilter node_ascii configured_tag"

text \<open>The candidate of the end-to-end scenario of the specification, created one second ago.\<close>

definition menu_post :: InstagramPost where
  "menu_post = \<lparr>post_id = js ''17900001'', caption = Some (js ''New menu! #MEO #food''),
     media_type = IMAGE, media_url = Some (js ''https://cdn.example/1.jpg''),
     permalink = js ''https://instagram.com/p/1'', timestamp = Some 1699999999000\<rparr>"

text \<open>A candidate with enough text and two tags, and one that repeats a single tag 21 times.\<close>

definition lunch_post :: InstagramPost where
  "lunch_post = menu_post\<lparr>caption := Some (js ''Great lunch today #MEO #food'')\<rparr>"

definition repeated_tag_post :: InstagramPost where
  "repeated_tag_post = menu_post\<lparr>caption := Some (js ''Great lunch today'' @
     js '' #MEO #MEO #MEO #MEO #MEO #MEO #MEO #MEO #MEO #MEO #MEO #MEO #MEO #MEO #MEO #MEO #MEO #MEO #MEO #MEO #MEO'')\<rparr>"

text \<open>A candidate whose caption holds 21 distinct tags, the target tag among them.\<close>

definition many_tags_post :: InstagramPost where
  "many_tags_post = menu_post\<lparr>caption := Some (js ''Great lunch today #MEO'' @
     js '' #t01 #t02 #t03 #t04 #t05 #t06 #t07 #t08 #t09 #t10 #t11 #t12 #t13 #t14 #t15 #t16 #t17 #t18 #t19 #t20'')\<rparr>"

text \<open>
  Two more worlds: one that agrees with \<open>world0\<close> on the next clock reading and differs
  in everything else, and \<open>world0\<close> two days later.
\<close>

definition world1 :: world where
  "world1 = \<lparr>clock = (\<lambda>n. 1700000000000), ticks = 7, trace = [TokenRequest],
     token_reply = Inl (js ''timeout''), post_reply = Inl (js ''Request failed''),
     ledger = Some [Garbage], read_fault = Some ''EACCES'', append_fault = True\<rparr>"

definition world_two_days_later :: world where
  "world_two_days_later = world0\<lparr>clock := (\<lambda>n. 1700172800000 + int n)\<rparr>"

text \<open>
  A manager that holds a token with an hour of validity left at the clock of \<open>world0\<close>,
  and two callers that have not started.
\<close>

definition fresh_gbp :: gbp where
  "fresh_gbp = \<lparr>accessToken = Some (js ''ya29.held''), tokenExpiresAt = 1700003600000\<rparr>"


text \<open>
  Ledger contents: a record with a given instant and status; a file of three records in
  storage order 200, 300, 100 with an undecodable and a blank line between them; and a
  file of 1001 records.
\<close>

definition log_at :: "int \<Rightarrow> sync_status \<Rightarrow> SyncLog" where
  "log_at t st = \<lparr>sync_id = js ''17900001-'' @ show_int t, sync_timestamp = t,
     instagramPostId = js ''17900001'', instagramCaption = None, instagramMediaUrl = None,
     gbpPostId = None, status = st, error_text = None, hashtags = [], syncDuration = 5\<rparr>"

definition three_lines :: "line list" where
  "three_lines = [Entry (log_at 200 failed), Garbage, Entry (log_at 300 success), Blank,
     Entry (log_at 100 skipped)]"

definition world_three :: world where
  "world_three = world0\<lparr>ledger := Some three_lines\<rparr>"


definition no_stats :: sync_stats where
  "no_stats = \<lparr>total_count = 0, successful_count = 0, failed_count = 0, skipped_count = 0,
     lastSync = None\<rparr>"

text \<open>
  A signature header that carries the digest of the instance followed by two characters
  that are not hexadecimal digits.
\<close>

definition padded_signature :: jsstring where
  "padded_signature = js ''sha256='' @ rfc4231_digest @ js ''zz''"

text \<open>
  A signature header that carries the digest with every code unit moved up by 256: none of
  its characters behind the prefix is a hexadecimal digit, and each has the low byte of
  the digit it replaces.
\<close>

definition shifted_signature :: jsstring where
  "shifted_signature = js ''sha256='' @ map (\<lambda>c. c + 256) rfc4231_digest"

text \<open>
  Two worlds agree on the ledger when the file, the write fault and the records handed to
  \<open>logSync\<close> so far are the same.
\<close>

definition same_store :: "world \<Rightarrow> world \<Rightarrow> bool" where
  "same_store w w' \<longleftrightarrow>
     ledger w' = ledger w \<and> append_fault w' = append_fault w \<and>
     append_requests w' = append_requests w"

text \<open>The world in which \<open>processSinglePost\<close> runs the filter: two clock readings and one log call later.\<close>

definition filter_world :: "world \<Rightarrow> world" where
  "filter_world w = emit (Log LInfo) (w\<lparr>ticks := Suc (Suc (ticks w))\<rparr>)"

text \<open>A world in which every write to the ledger fails.\<close>

definition world_disk_full :: world where
  "world_disk_full = world0\<lparr>append_fault := True\<rparr>"

section \<open>Auxiliary facts\<close>

lemma strip_tags_subset: "set (strip_tags wc s) \<subseteq> set s"
proof (induction wc s rule: strip_tags.induct)
  case (1 wc)
  then show ?case by simp
next
  case (2 wc c cs)
  show ?case
  proof (cases "starts_tag wc c cs")
    case True
    with 2 have "set (strip_tags wc (dropWhile wc cs)) \<subseteq> set (dropWhile wc cs)" by simp
    also have "\<dots> \<subseteq> set cs" by (auto dest: set_dropWhileD)
    finally show ?thesis using True by auto
  next
    case False
    with 2 show ?thesis by auto
  qed
qed

lemma dropWhile_all_iff: "(\<forall>c\<in>set (dropWhile Q s). Q c) \<longleftrightarrow> (\<forall>c\<in>set s. Q c)"
proof
  assume h: "\<forall>c\<in>set (dropWhile Q s). Q c"
  have "dropWhile Q s = []"
  proof (rule ccontr)
    assume ne: "dropWhile Q s \<noteq> []"
    then have "\<not> Q (hd (dropWhile Q s))" by (rule hd_dropWhile)
    moreover have "hd (dropWhile Q s) \<in> set (dropWhile Q s)" using ne by simp
    ultimately show False using h by blast
  qed
  then show "\<forall>c\<in>set s. Q c" by (simp add: dropWhile_eq_Nil_conv)
next
  assume "\<forall>c\<in>set s. Q c"
  then show "\<forall>c\<in>set (dropWhile Q s). Q c" by (auto dest: set_dropWhileD)
qed

lemma trim_Nil_iff: "trim s = [] \<longleftrightarrow> (\<forall>c\<in>set s. js_whitespace c)"
proof -
  have "trim s = [] \<longleftrightarrow> (\<forall>c\<in>set (dropWhile js_whitespace s). js_whitespace c)"
    unfolding trim_def by (simp del: set_rev) (simp only: set_rev)
  then show ?thesis by (simp only: dropWhile_all_iff)
qed

lemma shouldSync_simps: "shouldSync (reject r) = False" "shouldSync pass = True"
  by (simp_all add: reject_def pass_def)

lemma filterByAge_world: "snd (filterByAge w post) = w\<lparr>ticks := Suc (ticks w)\<rparr>"
  by (simp add: filterByAge_def Date_now_def Let_def split: option.split)

lemma filterByAge_verdict:
  "fst (filterByAge w post) =
     (case timestamp post of
        None \<Rightarrow> pass
      | Some t \<Rightarrow>
          if clock w (ticks w) - t > 86400000
          then reject (PostTooOld ((2 * (clock w (ticks w) - t) + 3600000) div 7200000) 24)
          else pass)"
  by (simp add: filterByAge_def Date_now_def Let_def split: option.split)

lemma filterPost_verdict:
  "fst (filterPost P configured this w post) =
     (let tags = extractHashtags P (caption post) in
      if targetHashtag this \<notin> set (map (toLowerCase P) tags)
        then reject (TargetHashtagMissing configured)
      else if \<not> shouldSync (filterByMediaType post) then filterByMediaType post
      else if \<not> shouldSync (fst (filterByAge (emit (Log LDebug) w) post))
        then fst (filterByAge (emit (Log LDebug) w) post)
      else if \<not> shouldSync (filterByContent P post) then filterByContent P post
      else \<lparr>shouldSync = True, matchedHashtags = tags, reason = None\<rparr>)"
  by (simp add: filterPost_def Let_def split_beta)

lemma filterByContent_too_many:
  "20 < length (extractHashtags P (caption post)) \<Longrightarrow> \<not> shouldSync (filterByContent P post)"
  by (simp add: filterByContent_def shouldSync_simps split: option.split)

lemma filterByContent_pass:
  assumes "caption post = Some c" "10 \<le> length (trim (strip_tags (tag_char P) c))"
    "length (extractHashtags P (caption post)) \<le> 20"
  shows "filterByContent P post = pass"
proof -
  have ne: "trim (strip_tags (tag_char P) c) \<noteq> []" using assms(2) by auto
  then obtain x where x: "x \<in> set (strip_tags (tag_char P) c)" "\<not> js_whitespace x"
    by (auto simp: trim_Nil_iff)
  then have "x \<in> set c" using strip_tags_subset by blast
  with x have "trim c \<noteq> []" by (auto simp: trim_Nil_iff)
  moreover from this have "c \<noteq> []" by (auto simp: trim_def)
  ultimately show ?thesis using assms by (simp add: filterByContent_def)
qed

lemma filterPost_too_many:
  "20 < length (extractHashtags P (caption post)) \<Longrightarrow>
   \<not> shouldSync (fst (filterPost P configured this w post))"
  by (simp add: filterPost_verdict Let_def shouldSync_simps filterByContent_too_many)

lemma filterPost_eligible:
  assumes "targetHashtag this \<in> set (map (toLowerCase P) (extractHashtags P (caption post)))"
    and "media_type post = IMAGE \<or> media_type post = CAROUSEL_ALBUM"
    and "timestamp post = Some t" "clock w (ticks w) - t \<le> 86400000"
    and "caption post = Some c" "10 \<le> length (trim (strip_tags (tag_char P) c))"
    and "length (extractHashtags P (caption post)) \<le> 20"
  shows "fst (filterPost P configured this w post) =
           \<lparr>shouldSync = True, matchedHashtags = extractHashtags P (caption post),
            reason = None\<rparr>"
proof -
  have m: "filterByMediaType post = pass"
    using assms(2) by (auto simp: filterByMediaType_def)
  have a: "fst (filterByAge (emit (Log LDebug) w) post) = pass"
    using assms(3,4) by (simp add: filterByAge_verdict emit_def)
  have c: "filterByContent P post = pass"
    using assms(5,6,7) by (rule filterByContent_pass)
  show ?thesis
    using assms(1) by (simp add: filterPost_verdict Let_def m a c shouldSync_simps)
qed

subsection \<open>Evaluation at the concrete candidates\<close>

lemmas eval_defs = js_def trim_def starts_tag_def word_class_def js_whitespace_def
  node_ascii_def ascii_lower_def extractHashtags_def world0_def configured_tag_def
  meo_filter_def new_PostFilter_def menu_post_def lunch_post_def repeated_tag_post_def
  many_tags_post_def

lemma repeated_tag_post_tags:
  "length (extractHashtags node_ascii (caption repeated_tag_post)) = 21"
  "set (extractHashtags node_ascii (caption repeated_tag_post)) = {js ''#MEO''}"
  by (simp_all add: eval_defs)

lemma repeated_tag_post_text:
  "caption repeated_tag_post = Some (js ''Great lunch today'' @ js '' #MEO #MEO #MEO #MEO #MEO #MEO #MEO #MEO #MEO #MEO #MEO #MEO #MEO #MEO #MEO #MEO #MEO #MEO #MEO #MEO #MEO'')"
  "length (trim (strip_tags (tag_char node_ascii) (js ''Great lunch today'' @ js '' #MEO #MEO #MEO #MEO #MEO #MEO #MEO #MEO #MEO #MEO #MEO #MEO #MEO #MEO #MEO #MEO #MEO #MEO #MEO #MEO #MEO''))) = 17"
  by (simp_all add: eval_defs)

lemma lunch_post_tags:
  "extractHashtags node_ascii (caption lunch_post) = [js ''#MEO'', js ''#food'']"
  by (simp add: eval_defs)

lemma lunch_post_text:
  "caption lunch_post = Some (js ''Great lunch today #MEO #food'')"
  "length (trim (strip_tags (tag_char node_ascii) (js ''Great lunch today #MEO #food''))) = 17"
  by (simp_all add: eval_defs)

lemma many_tags_post_tags:
  "length (extractHashtags node_ascii (caption many_tags_post)) = 21"
  "distinct (extractHashtags node_ascii (caption many_tags_post))"
  by (simp_all add: eval_defs)

lemma menu_post_fields:
  "media_type menu_post = IMAGE" "timestamp menu_post = Some 1699999999000"
  "media_type lunch_post = IMAGE" "timestamp lunch_post = Some 1699999999000"
  "media_type repeated_tag_post = IMAGE" "timestamp repeated_tag_post = Some 1699999999000"
  "media_type many_tags_post = IMAGE" "timestamp many_tags_post = Some 1699999999000"
  by (simp_all add: eval_defs)

lemma world0_clock: "clock world0 (ticks world0) = 1700000000000"
  by (simp add: world0_def)

lemma meo_filter_target: "targetHashtag meo_filter = js ''#meo''"
  "toLowerCase node_ascii (js ''#MEO'') = js ''#meo''"
  by (simp_all add: eval_defs)

section \<open>Filter Engine: verified properties\<close>

text \<open>
  C3 (as amended). The limit of the content check counts every tag token of the caption,
  repetitions included. A caption with 21 or more tag tokens, in particular one with 21 or
  more distinct ones, is never eligible. A caption with at most 20 tag tokens that includes
  the target tag is eligible when the media kind is image or carousel, the creation instant
  lies at most 24 hours before the clock reading, and the caption keeps at least 10
  characters after stripping the tags and trimming; the verdict then carries all tag
  tokens of the caption.
\<close>

theorem filterPost_hashtag_limit:
  "(21 \<le> card (set (extractHashtags P (caption post))) \<longrightarrow>
      \<not> shouldSync (fst (filterPost P configured this w post))) \<and>
   (21 \<le> length (extractHashtags P (caption post)) \<longrightarrow>
      \<not> shouldSync (fst (filterPost P configured this w post))) \<and>
   (length (extractHashtags P (caption post)) \<le> 20 \<and>
    targetHashtag this \<in> set (map (toLowerCase P) (extractHashtags P (caption post))) \<and>
    (media_type post = IMAGE \<or> media_type post = CAROUSEL_ALBUM) \<and>
    timestamp post = Some t \<and> clock w (ticks w) - t \<le> 86400000 \<and>
    caption post = Some c \<and> 10 \<le> length (trim (strip_tags (tag_char P) c)) \<longrightarrow>
      shouldSync (fst (filterPost P configured this w post)) \<and>
      matchedHashtags (fst (filterPost P configured this w post)) =
        extractHashtags P (caption post))"
proof (intro conjI impI)
  assume "21 \<le> card (set (extractHashtags P (caption post)))"
  moreover have "card (set (extractHashtags P (caption post))) \<le>
      length (extractHashtags P (caption post))" by (rule card_length)
  ultimately have "20 < length (extractHashtags P (caption post))" by linarith
  then show "\<not> shouldSync (fst (filterPost P configured this w post))"
    by (rule filterPost_too_many)
next
  assume "21 \<le> length (extractHashtags P (caption post))"
  then have "20 < length (extractHashtags P (caption post))" by linarith
  then show "\<not> shouldSync (fst (filterPost P configured this w post))"
    by (rule filterPost_too_many)
next
  assume h: "length (extractHashtags P (caption post)) \<le> 20 \<and>
    targetHashtag this \<in> set (map (toLowerCase P) (extractHashtags P (caption post))) \<and>
    (media_type post = IMAGE \<or> media_type post = CAROUSEL_ALBUM) \<and>
    timestamp post = Some t \<and> clock w (ticks w) - t \<le> 86400000 \<and>
    caption post = Some c \<and> 10 \<le> length (trim (strip_tags (tag_char P) c))"
  have e: "fst (filterPost P configured this w post) =
      \<lparr>shouldSync = True, matchedHashtags = extractHashtags P (caption post), reason = None\<rparr>"
    by (rule filterPost_eligible[where t = t and c = c]) (use h in blast)+
  show "shouldSync (fst (filterPost P configured this w post))" by (simp add: e)
  show "matchedHashtags (fst (filterPost P configured this w post)) =
        extractHashtags P (caption post)" by (simp add: e)
qed

text \<open>
  The theorem at a caption with 21 distinct tags (not eligible) and at a caption with two
  tags (eligible, both tags returned).
\<close>

theorem filterPost_hashtag_limit_witness:
  "21 \<le> card (set (extractHashtags node_ascii (caption many_tags_post))) \<and>
   21 \<le> length (extractHashtags node_ascii (caption many_tags_post)) \<and>
   \<not> shouldSync (fst (filterPost node_ascii configured_tag meo_filter world0 many_tags_post)) \<and>
   length (extractHashtags node_ascii (caption lunch_post)) \<le> 20 \<and>
   shouldSync (fst (filterPost node_ascii configured_tag meo_filter world0 lunch_post)) \<and>
   matchedHashtags (fst (filterPost node_ascii configured_tag meo_filter world0 lunch_post)) =
     [js ''#MEO'', js ''#food'']"
proof -
  have c: "card (set (extractHashtags node_ascii (caption many_tags_post))) = 21"
    using many_tags_post_tags by (simp add: distinct_card)
  have l: "length (extractHashtags node_ascii (caption many_tags_post)) = 21"
    by (rule many_tags_post_tags)
  have hyp: "length (extractHashtags node_ascii (caption lunch_post)) \<le> 20 \<and>
    targetHashtag meo_filter \<in>
      set (map (toLowerCase node_ascii) (extractHashtags node_ascii (caption lunch_post))) \<and>
    (media_type lunch_post = IMAGE \<or> media_type lunch_post = CAROUSEL_ALBUM) \<and>
    timestamp lunch_post = Some 1699999999000 \<and>
    clock world0 (ticks world0) - 1699999999000 \<le> 86400000 \<and>
    caption lunch_post = Some (js ''Great lunch today #MEO #food'') \<and>
    10 \<le> length (trim (strip_tags (tag_char node_ascii) (js ''Great lunch today #MEO #food'')))"
  proof (intro conjI)
    show "targetHashtag meo_filter \<in>
      set (map (toLowerCase node_ascii) (extractHashtags node_ascii (caption lunch_post)))"
      by (simp add: lunch_post_tags meo_filter_target)
    show "length (extractHashtags node_ascii (caption lunch_post)) \<le> 20"
      by (simp add: lunch_post_tags)
    show "caption lunch_post = Some (js ''Great lunch today #MEO #food'')"
      by (rule lunch_post_text)
    show "10 \<le> length (trim (strip_tags (tag_char node_ascii)
        (js ''Great lunch today #MEO #food'')))"
      by (simp add: lunch_post_text)
  qed (simp_all add: menu_post_fields world0_clock)
  have A: "\<not> shouldSync (fst (filterPost node_ascii configured_tag meo_filter world0
      many_tags_post))"
    using filterPost_hashtag_limit[where P = node_ascii and post = many_tags_post and
        configured = configured_tag and this = meo_filter and w = world0] l
    by simp
  have B: "shouldSync (fst (filterPost node_ascii configured_tag meo_filter world0 lunch_post)) \<and>
      matchedHashtags (fst (filterPost node_ascii configured_tag meo_filter world0 lunch_post)) =
        extractHashtags node_ascii (caption lunch_post)"
    using filterPost_hashtag_limit[where P = node_ascii and post = lunch_post and
        configured = configured_tag and this = meo_filter and w = world0 and
        t = 1699999999000 and c = "js ''Great lunch today #MEO #food''"] hyp
    by blast
  show ?thesis using A B c l by (simp add: lunch_post_tags)
qed

text \<open>
  C3 as stated fails: a caption that repeats one tag 21 times has a single distinct tag
  token, includes the target tag and meets the other conditions, and is not eligible.
\<close>

theorem distinct_tag_limit_counterexample:
  "card (set (extractHashtags node_ascii (caption repeated_tag_post))) \<le> 20 \<and>
   targetHashtag meo_filter \<in>
     set (map (toLowerCase node_ascii) (extractHashtags node_ascii (caption repeated_tag_post))) \<and>
   media_type repeated_tag_post = IMAGE \<and>
   timestamp repeated_tag_post = Some 1699999999000 \<and>
   clock world0 (ticks world0) - 1699999999000 \<le> 86400000 \<and>
   caption repeated_tag_post = Some (js ''Great lunch today'' @ js '' #MEO #MEO #MEO #MEO #MEO #MEO #MEO #MEO #MEO #MEO #MEO #MEO #MEO #MEO #MEO #MEO #MEO #MEO #MEO #MEO #MEO'') \<and>
   10 \<le> length (trim (strip_tags (tag_char node_ascii)
          (js ''Great lunch today'' @ js '' #MEO #MEO #MEO #MEO #MEO #MEO #MEO #MEO #MEO #MEO #MEO #MEO #MEO #MEO #MEO #MEO #MEO #MEO #MEO #MEO #MEO''))) \<and>
   \<not> shouldSync (fst (filterPost node_ascii configured_tag meo_filter world0 repeated_tag_post))"
proof (intro conjI)
  show "\<not> shouldSync (fst (filterPost node_ascii configured_tag meo_filter world0
      repeated_tag_post))"
    by (rule filterPost_too_many) (simp add: repeated_tag_post_tags)
  show "targetHashtag meo_filter \<in>
     set (map (toLowerCase node_ascii) (extractHashtags node_ascii (caption repeated_tag_post)))"
    by (simp add: repeated_tag_post_tags meo_filter_target)
  show "card (set (extractHashtags node_ascii (caption repeated_tag_post))) \<le> 20"
    by (simp add: repeated_tag_post_tags)
  show "caption repeated_tag_post = Some (js ''Great lunch today'' @ js '' #MEO #MEO #MEO #MEO #MEO #MEO #MEO #MEO #MEO #MEO #MEO #MEO #MEO #MEO #MEO #MEO #MEO #MEO #MEO #MEO #MEO'')"
    by (rule repeated_tag_post_text)
  show "10 \<le> length (trim (strip_tags (tag_char node_ascii)
          (js ''Great lunch today'' @ js '' #MEO #MEO #MEO #MEO #MEO #MEO #MEO #MEO #MEO #MEO #MEO #MEO #MEO #MEO #MEO #MEO #MEO #MEO #MEO #MEO #MEO'')))"
    by (simp add: repeated_tag_post_text)
qed (simp_all add: menu_post_fields world0_clock)

lemma filterPost_world:
  "snd (filterPost P configured this w post) =
     (if targetHashtag this \<notin> set (map (toLowerCase P) (extractHashtags P (caption post)))
      then w\<lparr>trace := trace w @ [Log LDebug, Log LDebug]\<rparr>
      else w\<lparr>ticks := Suc (ticks w),
             trace := trace w @ [Log LDebug,
               Log (if shouldSync (fst (filterPost P configured this w post)) then LInfo else LDebug)]\<rparr>)"
  by (simp add: filterPost_def Let_def split_beta filterByAge_world emit_def split: list.split)

lemma filterPost_clock_only:
  assumes "clock w1 (ticks w1) = clock w2 (ticks w2)"
  shows "fst (filterPost P configured this w1 post) = fst (filterPost P configured this w2 post)"
proof -
  have "fst (filterByAge (emit (Log LDebug) w1) post) =
      fst (filterByAge (emit (Log LDebug) w2) post)"
    using assms by (simp add: filterByAge_verdict emit_def split: option.split)
  then show ?thesis by (simp only: filterPost_verdict)
qed

lemma filterPost_too_old:
  assumes "targetHashtag this \<in> set (map (toLowerCase P) (extractHashtags P (caption post)))"
    and "media_type post = IMAGE \<or> media_type post = CAROUSEL_ALBUM"
    and "timestamp post = Some t" "86400000 < clock w (ticks w) - t"
  shows "\<not> shouldSync (fst (filterPost P configured this w post))"
proof -
  have m: "filterByMediaType post = pass"
    using assms(2) by (auto simp: filterByMediaType_def)
  have a: "\<not> shouldSync (fst (filterByAge (emit (Log LDebug) w) post))"
    using assms(3,4) by (simp add: filterByAge_verdict emit_def shouldSync_simps)
  show ?thesis
    using assms(1) a by (simp add: filterPost_verdict Let_def m shouldSync_simps)
qed

lemma world_clocks: "clock world1 (ticks world1) = 1700000000000"
  "clock world_two_days_later (ticks world_two_days_later) = 1700172800000"
  by (simp_all add: world1_def world_two_days_later_def world0_def)

lemma lunch_post_eligible:
  "fst (filterPost node_ascii configured_tag meo_filter world0 lunch_post) =
     \<lparr>shouldSync = True, matchedHashtags = [js ''#MEO'', js ''#food''], reason = None\<rparr>"
proof -
  have "fst (filterPost node_ascii configured_tag meo_filter world0 lunch_post) =
     \<lparr>shouldSync = True, matchedHashtags = extractHashtags node_ascii (caption lunch_post),
       reason = None\<rparr>"
  proof (rule filterPost_eligible[where t = 1699999999000 and
        c = "js ''Great lunch today #MEO #food''"])
    show "targetHashtag meo_filter \<in>
      set (map (toLowerCase node_ascii) (extractHashtags node_ascii (caption lunch_post)))"
      by (simp add: lunch_post_tags meo_filter_target)
    show "length (extractHashtags node_ascii (caption lunch_post)) \<le> 20"
      by (simp add: lunch_post_tags)
    show "caption lunch_post = Some (js ''Great lunch today #MEO #food'')"
      by (rule lunch_post_text)
    show "10 \<le> length (trim (strip_tags (tag_char node_ascii)
        (js ''Great lunch today #MEO #food'')))"
      by (simp add: lunch_post_text)
  qed (simp_all add: menu_post_fields world0_clock)
  then show ?thesis by (simp add: lunch_post_tags)
qed

text \<open>
  C4 (as amended). The verdict (eligibility flag, matched tag tokens and reason) is a
  function of the candidate, the target tag and one reading of the wall clock, which the
  age check takes itself: two evaluations in worlds that agree on that reading yield the
  same verdict, whatever else differs. The evaluation reads the clock at most once,
  changes nothing else, and its only output is calls of the application logger.
\<close>

theorem filterPost_deterministic:
  "(clock w1 (ticks w1) = clock w2 (ticks w2) \<longrightarrow>
      fst (filterPost P configured this w1 post) = fst (filterPost P configured this w2 post)) \<and>
   (\<exists>n levels. n \<le> 1 \<and>
      snd (filterPost P configured this w1 post) =
        w1\<lparr>ticks := ticks w1 + n, trace := trace w1 @ map Log levels\<rparr>)"
proof (intro conjI impI)
  assume "clock w1 (ticks w1) = clock w2 (ticks w2)"
  then show "fst (filterPost P configured this w1 post) =
      fst (filterPost P configured this w2 post)"
    by (rule filterPost_clock_only)
next
  show "\<exists>n levels. n \<le> 1 \<and>
      snd (filterPost P configured this w1 post) =
        w1\<lparr>ticks := ticks w1 + n, trace := trace w1 @ map Log levels\<rparr>"
  proof (cases "targetHashtag this \<in>
      set (map (toLowerCase P) (extractHashtags P (caption post)))")
    case True
    then have "snd (filterPost P configured this w1 post) =
        w1\<lparr>ticks := ticks w1 + 1, trace := trace w1 @ map Log [LDebug,
          if shouldSync (fst (filterPost P configured this w1 post)) then LInfo else LDebug]\<rparr>"
      by (simp add: filterPost_world)
    then show ?thesis by (metis le_refl)
  next
    case False
    then have "snd (filterPost P configured this w1 post) =
        w1\<lparr>ticks := ticks w1 + 0, trace := trace w1 @ map Log [LDebug, LDebug]\<rparr>"
      by (simp add: filterPost_world)
    then show ?thesis by (metis zero_le_one)
  qed
qed

text \<open>
  The theorem at two worlds that share the next clock reading and differ in clock, trace,
  ledger, platform answers and faults.
\<close>

theorem filterPost_deterministic_witness:
  "clock world0 (ticks world0) = clock world1 (ticks world1) \<and>
   fst (filterPost node_ascii configured_tag meo_filter world0 lunch_post) =
     fst (filterPost node_ascii configured_tag meo_filter world1 lunch_post) \<and>
   shouldSync (fst (filterPost node_ascii configured_tag meo_filter world1 lunch_post))"
proof -
  have h: "clock world0 (ticks world0) = clock world1 (ticks world1)"
    by (simp add: world0_clock world_clocks)
  have e: "fst (filterPost node_ascii configured_tag meo_filter world0 lunch_post) =
     fst (filterPost node_ascii configured_tag meo_filter world1 lunch_post)"
    using filterPost_deterministic[where ?w1.0 = world0 and ?w2.0 = world1 and P = node_ascii
        and configured = configured_tag and this = meo_filter and post = lunch_post] h
    by blast
  have "shouldSync (fst (filterPost node_ascii configured_tag meo_filter world1 lunch_post))"
    by (simp add: e[symmetric] lunch_post_eligible)
  with h e show ?thesis by blast
qed

text \<open>
  C4 as stated fails twice. The evaluation is not free of I/O: on the eligible candidate
  it calls the logger at levels debug and info. And the evaluation time is not injected:
  the same candidate, evaluated by the same filter two days later, is no longer eligible.
\<close>

theorem filterPost_effects_counterexample:
  "trace world0 = [] \<and>
   trace (snd (filterPost node_ascii configured_tag meo_filter world0 lunch_post)) =
     [Log LDebug, Log LInfo] \<and>
   shouldSync (fst (filterPost node_ascii configured_tag meo_filter world0 lunch_post)) \<and>
   \<not> shouldSync (fst (filterPost node_ascii configured_tag meo_filter world_two_days_later
        lunch_post))"
proof (intro conjI)
  show "trace world0 = []" by (simp add: world0_def)
  show "shouldSync (fst (filterPost node_ascii configured_tag meo_filter world0 lunch_post))"
    by (simp add: lunch_post_eligible)
  show "trace (snd (filterPost node_ascii configured_tag meo_filter world0 lunch_post)) =
     [Log LDebug, Log LInfo]"
    by (simp add: filterPost_world lunch_post_eligible lunch_post_tags meo_filter_target)
      (simp add: world0_def)
  show "\<not> shouldSync (fst (filterPost node_ascii configured_tag meo_filter world_two_days_later
        lunch_post))"
    by (rule filterPost_too_old[where t = 1699999999000])
      (simp_all add: lunch_post_tags meo_filter_target menu_post_fields world_clocks)
qed

section \<open>Token Lifecycle Manager: verified properties\<close>

lemma token_requests_simps:
  "token_requests (emit TokenRequest w) = Suc (token_requests w)"
  "token_requests (emit (Log l) w) = token_requests w"
  "token_requests (emit (CreatePostRequest p v t) w) = token_requests w"
  "token_requests (emit (AppendFile r) w) = token_requests w"
  "token_requests (w\<lparr>ticks := n\<rparr>) = token_requests w"
  "token_requests (w\<lparr>ledger := l'\<rparr>) = token_requests w"
  by (simp_all add: token_requests_def emit_def)

lemma refreshAccessToken_requests:
  "token_requests (snd (snd (refreshAccessToken (g, w)))) = Suc (token_requests w)"
  by (simp add: refreshAccessToken_def Let_def Date_now_def emit_def token_requests_def
      split: sum.split prod.split)

lemma refreshAccessToken_result:
  "token_reply w = Inr (tok, e) \<Longrightarrow> fst (refreshAccessToken (g, w)) = Inr tok"
  "token_reply w = Inl m \<Longrightarrow> refreshAccessToken (g, w) =
     (Inl (refresh_failed_prefix @ m), g, emit (Log LError) (emit TokenRequest (emit (Log LDebug) w)))"
  by (simp_all add: refreshAccessToken_def Let_def Date_now_def emit_def)

lemma getValidAccessToken_cases:
  "getValidAccessToken (g, w) =
     (if no_token g then refreshAccessToken (g, w)
      else if tokenExpiresAt g - 60000 \<le> clock w (ticks w)
        then refreshAccessToken (g, w\<lparr>ticks := Suc (ticks w)\<rparr>)
      else (Inr (the (accessToken g)), g, w\<lparr>ticks := Suc (ticks w)\<rparr>))"
  by (simp add: getValidAccessToken_def no_token_def Date_now_def Let_def split: option.split)

lemma fresh_gbp_fields: "accessToken fresh_gbp = Some (js ''ya29.held'')"
  "tokenExpiresAt fresh_gbp = 1700003600000" "js ''ya29.held'' \<noteq> []"
  "no_token new_gbp" "token_reply world0 = Inr (js ''ya29.a0'', 3600)"
  "token_requests world0 = 0"
  by (simp_all add: fresh_gbp_def new_gbp_def no_token_def world0_def js_def token_requests_def)

text \<open>
  C5. \<open>getValidAccessToken\<close> sends a refresh request, exactly one, if and only if no token
  is held (\<open>null\<close> or the empty string, the values that \<open>!this.accessToken\<close> accepts) or the
  expiry minus the 60000 ms margin is at or before the clock reading; otherwise it sends
  none. A held token with more than the margin left is returned as it is, and the manager
  is unchanged. When the refresh is answered, the new token is stored and returned.
\<close>

theorem getValidAccessToken_refresh_iff:
  "(token_requests (snd (snd (getValidAccessToken (g, w)))) = Suc (token_requests w) \<longleftrightarrow>
      no_token g \<or> tokenExpiresAt g - 60000 \<le> clock w (ticks w)) \<and>
   (token_requests (snd (snd (getValidAccessToken (g, w)))) = token_requests w \<longleftrightarrow>
      \<not> (no_token g \<or> tokenExpiresAt g - 60000 \<le> clock w (ticks w))) \<and>
   (accessToken g = Some held \<and> held \<noteq> [] \<and> clock w (ticks w) < tokenExpiresAt g - 60000 \<longrightarrow>
      getValidAccessToken (g, w) = (Inr held, g, w\<lparr>ticks := Suc (ticks w)\<rparr>)) \<and>
   ((no_token g \<or> tokenExpiresAt g - 60000 \<le> clock w (ticks w)) \<and>
    token_reply w = Inr (tok, e) \<longrightarrow>
      fst (getValidAccessToken (g, w)) = Inr tok \<and>
      accessToken (fst (snd (getValidAccessToken (g, w)))) = Some tok)"
proof -
  let ?need = "no_token g \<or> tokenExpiresAt g - 60000 \<le> clock w (ticks w)"
  let ?after = "token_requests (snd (snd (getValidAccessToken (g, w))))"
  have req: "?after = (if ?need then Suc (token_requests w) else token_requests w)"
    by (simp add: getValidAccessToken_cases refreshAccessToken_requests token_requests_simps)
  have kept: "getValidAccessToken (g, w) = (Inr held, g, w\<lparr>ticks := Suc (ticks w)\<rparr>)"
    if "accessToken g = Some held" "held \<noteq> []" "clock w (ticks w) < tokenExpiresAt g - 60000"
    using that by (simp add: getValidAccessToken_cases no_token_def)
  have fresh: "fst (getValidAccessToken (g, w)) = Inr tok \<and>
      accessToken (fst (snd (getValidAccessToken (g, w)))) = Some tok"
    if "?need" "token_reply w = Inr (tok, e)"
    using that
    by (auto simp: getValidAccessToken_cases refreshAccessToken_def Let_def Date_now_def emit_def)
  show ?thesis using req kept fresh by auto
qed

text \<open>
  The theorem at a manager without a token (one request, the answered token returned) and
  at a manager whose token has an hour left (no request, the held token returned).
\<close>

theorem getValidAccessToken_refresh_iff_witness:
  "no_token new_gbp \<and>
   token_requests (snd (snd (getValidAccessToken (new_gbp, world0)))) = 1 \<and>
   fst (getValidAccessToken (new_gbp, world0)) = Inr (js ''ya29.a0'') \<and>
   clock world0 (ticks world0) < tokenExpiresAt fresh_gbp - 60000 \<and>
   token_requests (snd (snd (getValidAccessToken (fresh_gbp, world0)))) = 0 \<and>
   fst (getValidAccessToken (fresh_gbp, world0)) = Inr (js ''ya29.held'') \<and>
   fst (snd (getValidAccessToken (fresh_gbp, world0))) = fresh_gbp"
proof -
  have margin: "clock world0 (ticks world0) < tokenExpiresAt fresh_gbp - 60000"
    by (simp add: world0_clock fresh_gbp_fields)
  have absent: "token_requests (snd (snd (getValidAccessToken (new_gbp, world0)))) = 1 \<and>
      fst (getValidAccessToken (new_gbp, world0)) = Inr (js ''ya29.a0'')"
    using getValidAccessToken_refresh_iff[where g = new_gbp and w = world0 and
        tok = "js ''ya29.a0''" and e = 3600] fresh_gbp_fields(4,5,6)
    by simp
  have held: "getValidAccessToken (fresh_gbp, world0) =
      (Inr (js ''ya29.held''), fresh_gbp, world0\<lparr>ticks := Suc (ticks world0)\<rparr>)"
    using getValidAccessToken_refresh_iff[where g = fresh_gbp and w = world0 and
        held = "js ''ya29.held''"] fresh_gbp_fields(1,3) margin
    by blast
  show ?thesis using margin absent held fresh_gbp_fields by (simp add: token_requests_simps)
qed

subsection \<open>Interleaved callers\<close>

text \<open>
  The two atomic parts compose to the sequential function: a call that is not interleaved
  with another one is \<open>getValidAccessToken\<close>.
\<close>

lemma getValidAccessToken_split:
  "getValidAccessToken s =
     (case begin_call s of
        (AwaitingRefresh, g, w) \<Rightarrow>
          (case resume_call (g, w) of
             (Returned t, g', w') \<Rightarrow> (Inr t, g', w')
           | (Threw m, g', w') \<Rightarrow> (Inl m, g', w')
           | (c, g', w') \<Rightarrow> (Inl [], g', w'))
      | (Returned t, g, w) \<Rightarrow> (Inr t, g, w)
      | (c, g, w) \<Rightarrow> (Inl [], g, w))"
  by (cases s)
    (simp add: getValidAccessToken_def begin_call_def resume_call_def refreshAccessToken_def
      Let_def Date_now_def emit_def split: option.split sum.split prod.split)











lemma world0_facts: "token_reply world0 = Inr (js ''ya29.a0'', 3600)" "js ''ya29.a0'' \<noteq> []"
  "clock world0 (Suc (ticks world0)) < clock world0 (ticks world0) + 3600 * 1000 - 60000"
  "token_requests world0 = 0" "no_token new_gbp"
  by (simp_all add: world0_def js_def token_requests_def new_gbp_def no_token_def)





section \<open>Publisher: verified properties\<close>

lemma convert_summary:
  "summary (convertInstagramToGBPPost P post) =
     (let cleaned = trim (strip_tags (tag_char P)
            (case caption post of
               None \<Rightarrow> default_caption
             | Some c \<Rightarrow> if c = [] then default_caption else c))
      in if length cleaned < 10 then fallback_summary
         else if 1500 < length cleaned then take 1497 cleaned @ js ''...''
         else cleaned)"
  by (auto simp: convertInstagramToGBPPost_def Let_def js_def split: option.split)

lemma convert_media:
  "media (convertInstagramToGBPPost P post) =
     (case media_url post of
        None \<Rightarrow> None
      | Some u \<Rightarrow> if u \<noteq> [] \<and> media_type post = IMAGE
                  then Some [\<lparr>mediaFormat = PHOTO, sourceUrl = u\<rparr>] else None)"
  by (simp add: convertInstagramToGBPPost_def Let_def split: option.split)

lemma fallback_length: "length fallback_summary = 33"
  by (simp add: fallback_summary_def)

lemma menu_post_summary:
  "trim (strip_tags (tag_char node_ascii) (js ''New menu! #MEO #food'')) = js ''New menu!''"
  "strip_tags (tag_char node_ascii) (js ''New menu! #MEO #food'') = js ''New menu!  ''"
  by (simp_all add: eval_defs)

lemma menu_post_caption: "caption menu_post = Some (js ''New menu! #MEO #food'')"
  "js ''New menu! #MEO #food'' \<noteq> []" "media_url menu_post = Some (js ''https://cdn.example/1.jpg'')"
  "js ''https://cdn.example/1.jpg'' \<noteq> []"
  by (simp_all add: menu_post_def js_def)

text \<open>
  C2 (as amended). The summary of the listing request is obtained from the caption, or from
  the default string when the caption is absent or empty, by stripping all tag tokens and
  then trimming the surrounding whitespace; it is the fallback sentence when fewer than 10
  characters remain, the first 1497 characters followed by the ellipsis when more than 1500
  remain, and the cleaned text otherwise. It always has between 10 and 1500 characters.
  The request carries a media reference if and only if the media kind is single-image and
  a non-empty media URL is present, and the reference is that URL as one photo.
\<close>

theorem convert_listing_request:
  "summary (convertInstagramToGBPPost P post) =
     (let cleaned = trim (strip_tags (tag_char P)
            (case caption post of
               None \<Rightarrow> default_caption
             | Some c \<Rightarrow> if c = [] then default_caption else c))
      in if length cleaned < 10 then fallback_summary
         else if 1500 < length cleaned then take 1497 cleaned @ js ''...''
         else cleaned) \<and>
   10 \<le> length (summary (convertInstagramToGBPPost P post)) \<and>
   length (summary (convertInstagramToGBPPost P post)) \<le> 1500 \<and>
   (media (convertInstagramToGBPPost P post) \<noteq> None \<longleftrightarrow>
      media_type post = IMAGE \<and> (\<exists>u. media_url post = Some u \<and> u \<noteq> [])) \<and>
   (\<forall>u. media_type post = IMAGE \<and> media_url post = Some u \<and> u \<noteq> [] \<longrightarrow>
      media (convertInstagramToGBPPost P post) = Some [\<lparr>mediaFormat = PHOTO, sourceUrl = u\<rparr>])"
proof (intro conjI)
  show "summary (convertInstagramToGBPPost P post) =
     (let cleaned = trim (strip_tags (tag_char P)
            (case caption post of
               None \<Rightarrow> default_caption
             | Some c \<Rightarrow> if c = [] then default_caption else c))
      in if length cleaned < 10 then fallback_summary
         else if 1500 < length cleaned then take 1497 cleaned @ js ''...''
         else cleaned)"
    by (rule convert_summary)
  show "10 \<le> length (summary (convertInstagramToGBPPost P post))"
    by (simp add: convert_summary Let_def fallback_length js_def)
  show "length (summary (convertInstagramToGBPPost P post)) \<le> 1500"
    by (simp add: convert_summary Let_def fallback_length js_def)
  show "media (convertInstagramToGBPPost P post) \<noteq> None \<longleftrightarrow>
      media_type post = IMAGE \<and> (\<exists>u. media_url post = Some u \<and> u \<noteq> [])"
    by (auto simp: convert_media split: option.split)
  show "\<forall>u. media_type post = IMAGE \<and> media_url post = Some u \<and> u \<noteq> [] \<longrightarrow>
      media (convertInstagramToGBPPost P post) = Some [\<lparr>mediaFormat = PHOTO, sourceUrl = u\<rparr>]"
    by (simp add: convert_media)
qed

text \<open>The theorem at the candidate of the end-to-end scenario, which has an image URL.\<close>

theorem convert_listing_request_witness:
  "media_type menu_post = IMAGE \<and>
   media_url menu_post = Some (js ''https://cdn.example/1.jpg'') \<and>
   js ''https://cdn.example/1.jpg'' \<noteq> [] \<and>
   media (convertInstagramToGBPPost node_ascii menu_post) =
     Some [\<lparr>mediaFormat = PHOTO, sourceUrl = js ''https://cdn.example/1.jpg''\<rparr>] \<and>
   summary (convertInstagramToGBPPost node_ascii menu_post) = fallback_summary"
proof -
  have "summary (convertInstagramToGBPPost node_ascii menu_post) = fallback_summary"
    using convert_listing_request[of node_ascii menu_post]
    by (simp add: menu_post_caption menu_post_summary(1) Let_def) (simp add: js_def)
  moreover have "media (convertInstagramToGBPPost node_ascii menu_post) =
     Some [\<lparr>mediaFormat = PHOTO, sourceUrl = js ''https://cdn.example/1.jpg''\<rparr>]"
    using convert_listing_request[of node_ascii menu_post] menu_post_caption(3,4)
      menu_post_fields(1)
    by blast
  ultimately show ?thesis
    using menu_post_caption menu_post_fields by simp
qed

text \<open>
  C2 as stated fails, since the rule of the specification does not trim. For the caption
  of the end-to-end scenario the rule keeps the two blanks that stood before the tags, 11
  characters, while the source trims to 9 characters and substitutes the fallback sentence.
\<close>

theorem spec_summary_counterexample:
  "summary (convertInstagramToGBPPost node_ascii menu_post) = fallback_summary \<and>
   spec_summary node_ascii (caption menu_post) = js ''New menu!  '' \<and>
   summary (convertInstagramToGBPPost node_ascii menu_post) \<noteq>
     spec_summary node_ascii (caption menu_post)"
proof -
  have a: "summary (convertInstagramToGBPPost node_ascii menu_post) = fallback_summary"
    by (simp add: convert_summary menu_post_caption menu_post_summary(1) Let_def)
      (simp add: js_def)
  have b: "spec_summary node_ascii (caption menu_post) = js ''New menu!  ''"
    by (simp add: spec_summary_def menu_post_caption menu_post_summary(2) Let_def)
      (simp add: js_def)
  have "fallback_summary \<noteq> js ''New menu!  ''"
    by (simp add: fallback_summary_def js_def)
  with a b show ?thesis by simp
qed

section \<open>Sync Ledger: verified properties\<close>

lemma js_slice_nonneg:
  assumes "0 \<le> offset" "0 \<le> limit"
  shows "js_slice xs offset (offset + limit) = take (nat limit) (drop (nat offset) xs)"
proof (cases "offset < int (length xs)")
  case True
  have "take (nat (min (offset + limit) (int (length xs)) - offset)) (drop (nat offset) xs) =
      take (nat limit) (drop (nat offset) xs)"
  proof (cases "offset + limit \<le> int (length xs)")
    case True
    then show ?thesis by (simp add: min_def)
  next
    case False
    then have "length (drop (nat offset) xs) \<le> nat limit"
      "length (drop (nat offset) xs) \<le> nat (int (length xs) - offset)"
      using assms by auto
    then show ?thesis using False by (simp add: min_def)
  qed
  then show ?thesis using assms True by (simp add: js_slice_def Let_def min_def)
next
  case False
  then show ?thesis using assms by (simp add: js_slice_def Let_def min_def)
qed

lemma read_ledger_present:
  "read_fault w = None \<Longrightarrow> ledger w = Some ls \<Longrightarrow> read_ledger w = Inr ls"
  by (simp add: read_ledger_def)

lemma getSyncLogs_present:
  assumes "read_fault w = None" "ledger w = Some ls" "0 \<le> offset" "0 \<le> limit"
  shows "getSyncLogs w limit offset =
     (Inr (take (nat limit) (drop (nat offset) (sorted_logs ls))), w)"
  using assms by (simp add: getSyncLogs_def read_ledger_present js_slice_nonneg)

lemma mset_sorted_logs: "mset (sorted_logs ls) = mset (decode ls)"
  by (simp add: sorted_logs_def)

lemma sorted_logs_descending:
  assumes "distinct (map sync_timestamp (decode ls))"
  shows "sorted_wrt (\<lambda>a b. sync_timestamp b < sync_timestamp a) (sorted_logs ls)"
proof -
  let ?key = "\<lambda>r. - sync_timestamp r"
  have inj: "inj_on uminus (set (map sync_timestamp (decode ls)))"
    by (simp add: inj_on_def)
  have "distinct (map ?key (decode ls))"
    using assms distinct_map[of uminus "map sync_timestamp (decode ls)"] inj
    by (simp add: comp_def)
  then have "distinct (map ?key (sorted_logs ls))"
    by (metis distinct_map distinct_sort set_sort sorted_logs_def)
  moreover have "sorted (map ?key (sorted_logs ls))"
    by (simp add: sorted_logs_def)
  ultimately have "sorted_wrt (<) (map ?key (sorted_logs ls))"
    by (simp add: strict_sorted_iff)
  then show ?thesis by (simp add: sorted_wrt_map)
qed

lemma concat_pages:
  "concat (map (\<lambda>k. take n (drop (k * n) xs)) [0..<m]) = take (m * n) xs"
proof (induction m)
  case 0
  then show ?case by simp
next
  case (Suc m)
  have "take (Suc m * n) xs = take (m * n + n) xs" by (simp add: add.commute)
  also have "\<dots> = take (m * n) xs @ take n (drop (m * n) xs)" by (rule take_add)
  finally show ?case using Suc by simp
qed

lemma page_of_present:
  assumes "read_fault w = None" "ledger w = Some ls" "0 \<le> limit"
  shows "page_of w limit k = take (nat limit) (drop (k * nat limit) (sorted_logs ls))"
proof -
  have "nat (int k * limit) = k * nat limit"
    using assms(3) by (simp add: nat_mult_distrib)
  then show ?thesis
    using assms by (simp add: page_of_def getSyncLogs_present)
qed

lemma log_at_simps: "sync_timestamp (log_at t st) = t" "status (log_at t st) = st"
  by (simp_all add: log_at_def)

lemma three_lines_decoded:
  "decode three_lines = [log_at 200 failed, log_at 300 success, log_at 100 skipped]"
  "sorted_logs three_lines = [log_at 300 success, log_at 200 failed, log_at 100 skipped]"
  by (simp_all add: three_lines_def sorted_logs_def log_at_simps)

lemma world_three_file: "read_fault world_three = None" "ledger world_three = Some three_lines"
  by (simp_all add: world_three_def world0_def)

text \<open>
  C6. For a readable ledger whose records have distinct instants, the sorted sequence
  \<open>sorted_logs\<close> holds exactly the stored records, in strictly descending order of
  instant. Every page that \<open>getSyncLogs\<close> returns is strictly descending, and for a
  limit and an offset that are not negative it is the \<open>limit\<close> records of the sorted
  sequence behind the first \<open>offset\<close>: the slice is taken after sorting. The pages of one size, taken at the
  offsets 0, limit, 2 limit and so on until the records are exhausted, concatenate to the
  sorted sequence: nothing is missing and nothing occurs twice.
\<close>

theorem getSyncLogs_pagination:
  assumes "read_fault w = None" and "ledger w = Some ls"
    and "distinct (map sync_timestamp (decode ls))"
  shows "mset (sorted_logs ls) = mset (decode ls) \<and>
    sorted_wrt (\<lambda>a b. sync_timestamp b < sync_timestamp a) (sorted_logs ls) \<and>
    (\<forall>limit offset. \<exists>page. fst (getSyncLogs w limit offset) = Inr page \<and>
       sorted_wrt (\<lambda>a b. sync_timestamp b < sync_timestamp a) page \<and>
       (0 \<le> limit \<and> 0 \<le> offset \<longrightarrow>
          page = take (nat limit) (drop (nat offset) (sorted_logs ls)))) \<and>
    (\<forall>limit m. 0 < limit \<and> length (decode ls) \<le> m * nat limit \<longrightarrow>
       concat (map (page_of w limit) [0..<m]) = sorted_logs ls)"
proof (intro conjI allI)
  show "mset (sorted_logs ls) = mset (decode ls)" by (rule mset_sorted_logs)
  show desc: "sorted_wrt (\<lambda>a b. sync_timestamp b < sync_timestamp a) (sorted_logs ls)"
    using assms(3) by (rule sorted_logs_descending)
  show "\<exists>page. fst (getSyncLogs w limit offset) = Inr page \<and>
       sorted_wrt (\<lambda>a b. sync_timestamp b < sync_timestamp a) page \<and>
       (0 \<le> limit \<and> 0 \<le> offset \<longrightarrow>
          page = take (nat limit) (drop (nat offset) (sorted_logs ls)))"
    for limit offset
  proof (intro exI conjI impI)
    show "fst (getSyncLogs w limit offset) =
        Inr (js_slice (sorted_logs ls) offset (offset + limit))"
      using assms(1,2) by (simp add: getSyncLogs_def read_ledger_present)
    show "sorted_wrt (\<lambda>a b. sync_timestamp b < sync_timestamp a)
        (js_slice (sorted_logs ls) offset (offset + limit))"
      using desc by (simp add: js_slice_def Let_def sorted_wrt_take sorted_wrt_drop)
    show "js_slice (sorted_logs ls) offset (offset + limit) =
        take (nat limit) (drop (nat offset) (sorted_logs ls))"
      if "0 \<le> limit \<and> 0 \<le> offset"
      using that by (simp add: js_slice_nonneg)
  qed
  show "0 < limit \<and> length (decode ls) \<le> m * nat limit \<longrightarrow>
      concat (map (page_of w limit) [0..<m]) = sorted_logs ls" for limit m
  proof
    assume h: "0 < limit \<and> length (decode ls) \<le> m * nat limit"
    have "map (page_of w limit) [0..<m] =
        map (\<lambda>k. take (nat limit) (drop (k * nat limit) (sorted_logs ls))) [0..<m]"
      using h assms(1,2) by (simp add: page_of_present)
    then have "concat (map (page_of w limit) [0..<m]) = take (m * nat limit) (sorted_logs ls)"
      by (simp only: concat_pages)
    moreover have "length (sorted_logs ls) \<le> m * nat limit"
      using h by (simp add: sorted_logs_def)
    ultimately show "concat (map (page_of w limit) [0..<m]) = sorted_logs ls" by simp
  qed
qed

text \<open>
  The theorem at a file of three records stored in the order 200, 300, 100, read in pages
  of two.
\<close>

theorem getSyncLogs_pagination_witness:
  "read_fault world_three = None \<and> ledger world_three = Some three_lines \<and>
   distinct (map sync_timestamp (decode three_lines)) \<and>
   fst (getSyncLogs world_three 2 0) = Inr [log_at 300 success, log_at 200 failed] \<and>
   fst (getSyncLogs world_three 2 2) = Inr [log_at 100 skipped] \<and>
   concat (map (page_of world_three 2) [0..<2]) =
     [log_at 300 success, log_at 200 failed, log_at 100 skipped]"
proof -
  have d: "distinct (map sync_timestamp (decode three_lines))"
    by (simp add: three_lines_decoded log_at_simps)
  note t = getSyncLogs_pagination[OF world_three_file d]
  from t have pages: "\<forall>limit offset. \<exists>page.
       fst (getSyncLogs world_three limit offset) = Inr page \<and>
       sorted_wrt (\<lambda>a b. sync_timestamp b < sync_timestamp a) page \<and>
       (0 \<le> limit \<and> 0 \<le> offset \<longrightarrow>
          page = take (nat limit) (drop (nat offset) (sorted_logs three_lines)))"
    by blast
  from t have whole: "\<forall>limit m. 0 < limit \<and> length (decode three_lines) \<le> m * nat limit \<longrightarrow>
       concat (map (page_of world_three limit) [0..<m]) = sorted_logs three_lines"
    by blast
  have p0: "fst (getSyncLogs world_three 2 0) = Inr [log_at 300 success, log_at 200 failed]"
    using pages[rule_format, of 2 0] by (auto simp: three_lines_decoded)
  have p1: "fst (getSyncLogs world_three 2 2) = Inr [log_at 100 skipped]"
    using pages[rule_format, of 2 2] by (auto simp: three_lines_decoded)
  have c: "concat (map (page_of world_three 2) [0..<2]) =
     [log_at 300 success, log_at 200 failed, log_at 100 skipped]"
    using whole[rule_format, of 2 2] by (simp add: three_lines_decoded)
  show ?thesis using world_three_file d p0 p1 c by blast
qed









lemma getSyncLogs_fails_iff:
  "fst (getSyncLogs w limit offset) = Inl code \<longleftrightarrow> read_fault w = Some code \<and> code \<noteq> ''ENOENT''"
  by (auto simp: getSyncLogs_def read_ledger_def split: option.splits sum.splits if_splits)




text \<open>
  C10. When the ledger file does not exist, \<open>getSyncLogs\<close> returns the empty list and
  \<open>getSyncLogStats\<close> returns statistics of all zeros, and neither raises. \<open>getSyncLogs\<close>
  raises exactly when reading fails with a code other than \<open>ENOENT\<close>, and then with that
  code.
\<close>

theorem getSyncLogs_absent_file:
  "(read_fault w = None \<and> ledger w = None \<longrightarrow>
      getSyncLogs w limit offset = (Inr [], w) \<and> getSyncLogStats w = (no_stats, w)) \<and>
   (fst (getSyncLogs w limit offset) = Inl code \<longleftrightarrow>
      read_fault w = Some code \<and> code \<noteq> ''ENOENT'')"
proof (intro conjI impI)
  assume h: "read_fault w = None \<and> ledger w = None"
  then have r: "read_ledger w = Inl ''ENOENT''" by (simp add: read_ledger_def)
  then show "getSyncLogs w limit offset = (Inr [], w)" by (simp add: getSyncLogs_def)
  from r show "getSyncLogStats w = (no_stats, w)"
    by (simp add: getSyncLogStats_def getSyncLogs_def no_stats_def)
next
  show "fst (getSyncLogs w limit offset) = Inl code \<longleftrightarrow>
      read_fault w = Some code \<and> code \<noteq> ''ENOENT''"
    by (rule getSyncLogs_fails_iff)
qed

text \<open>
  The theorem at a world without a ledger file and at a world where reading fails with
  \<open>EACCES\<close>.
\<close>

theorem getSyncLogs_absent_file_witness:
  "read_fault world0 = None \<and> ledger world0 = None \<and>
   getSyncLogs world0 50 0 = (Inr [], world0) \<and>
   getSyncLogStats world0 = (no_stats, world0) \<and>
   read_fault world1 = Some ''EACCES'' \<and>
   fst (getSyncLogs world1 50 0) = Inl ''EACCES''"
proof -
  have a: "read_fault world0 = None \<and> ledger world0 = None" by (simp add: world0_def)
  have b: "read_fault world1 = Some ''EACCES'' \<and> ''EACCES'' \<noteq> ''ENOENT''"
    by (simp add: world1_def)
  have "getSyncLogs world0 50 0 = (Inr [], world0) \<and> getSyncLogStats world0 = (no_stats, world0)"
    using getSyncLogs_absent_file[of world0 50 0] a by blast
  moreover have "fst (getSyncLogs world1 50 0) = Inl ''EACCES''"
    using getSyncLogs_absent_file[of world1 50 0 "''EACCES''"] b by blast
  ultimately show ?thesis using a b by blast
qed

section \<open>Ingestion Gateway: verified properties\<close>

lemma buffer_from_hex_prefix: "buffer_from_hex uh (hex_prefix uh s) = buffer_from_hex uh s"
  by (induction uh s rule: hex_prefix.induct) (auto split: option.splits)

lemma hex_prefix_idem: "hex_prefix uh (hex_prefix uh s) = hex_prefix uh s"
  by (induction uh s rule: hex_prefix.induct) auto

lemma length_buffer_from_hex: "2 * length (buffer_from_hex uh s) = length (hex_prefix uh s)"
  by (induction uh s rule: hex_prefix.induct) (auto split: option.splits)

lemma hex_prefix_append:
  "hex_prefix uh d = d \<Longrightarrow> hex_prefix uh (d @ rest) = d @ hex_prefix uh rest"
  by (induction uh d rule: hex_prefix.induct) (auto split: if_splits)

lemma byte_of_digits:
  fixes x y x' y' :: nat
  assumes "x < 16" "y < 16" "x' < 16" "y' < 16"
  shows "16 * x + y = 16 * x' + y' \<longleftrightarrow> x = x' \<and> y = y'"
proof
  assume e: "16 * x + y = 16 * x' + y'"
  have "x = x'" using e assms by linarith
  moreover from this have "y = y'" using e by simp
  ultimately show "x = x' \<and> y = y'" by simp
next
  assume "x = x' \<and> y = y'"
  then show "16 * x + y = 16 * x' + y'" by simp
qed

lemma decodable_cases:
  assumes "hex_prefix uh q = q"
  shows "q = [] \<or> (\<exists>c d rest x y. q = c # d # rest \<and> uh c = Some x \<and> uh d = Some y \<and>
            hex_prefix uh rest = rest)"
proof (cases q)
  case Nil
  then show ?thesis by simp
next
  case (Cons c q')
  show ?thesis
  proof (cases q')
    case Nil
    with Cons assms show ?thesis by simp
  next
    case (Cons d rest)
    with \<open>q = c # q'\<close> assms show ?thesis by (auto split: if_splits)
  qed
qed

lemma decoded_eq_iff:
  assumes "digit_table uh" "hex_prefix uh p = p" "hex_prefix uh q = q"
  shows "buffer_from_hex uh p = buffer_from_hex uh q \<longleftrightarrow>
         map (digit_value uh) p = map (digit_value uh) q"
  using assms
proof (induction uh p arbitrary: q rule: hex_prefix.induct)
  case (1 uh a b rest)
  then obtain x y where ab: "uh a = Some x" "uh b = Some y" and r: "hex_prefix uh rest = rest"
    by (auto split: if_splits)
  from decodable_cases[OF "1.prems"(3)] show ?case
  proof
    assume "q = []"
    then show ?thesis using ab by simp
  next
    assume "\<exists>c d rest' x' y'. q = c # d # rest' \<and> uh c = Some x' \<and> uh d = Some y' \<and>
            hex_prefix uh rest' = rest'"
    then obtain c d rest' x' y' where q: "q = c # d # rest'"
      and cd: "uh c = Some x'" "uh d = Some y'" and r': "hex_prefix uh rest' = rest'"
      by blast
    have lt: "x < 16" "y < 16" "x' < 16" "y' < 16"
      using "1.prems"(1) ab cd by (auto simp: digit_table_def)
    have ih: "buffer_from_hex uh rest = buffer_from_hex uh rest' \<longleftrightarrow>
        map (digit_value uh) rest = map (digit_value uh) rest'"
      using "1.IH"[OF _ "1.prems"(1) r r'] ab by simp
    have dv: "digit_value uh a = x" "digit_value uh b = y" "digit_value uh c = x'"
      "digit_value uh d = y'"
      by (simp_all add: digit_value_def ab cd)
    show ?thesis
      using ih byte_of_digits[OF lt] by (simp add: q ab cd dv)
  qed
qed (auto dest: decodable_cases)

lemma verifyWebhookSignature_result:
  "fst (verifyWebhookSignature P appSecret w payload signature) \<longleftrightarrow>
     buffer_from_hex (unhex P) (hmac_sha256_hex P appSecret payload) =
     buffer_from_hex (unhex P) (replace_first (js ''sha256='') [] signature)"
  by (auto simp: verifyWebhookSignature_def timingSafeEqual_def Let_def)

lemma verifyWebhookSignature_world:
  "snd (verifyWebhookSignature P appSecret w payload signature) =
     emit (Log (if length (hex_prefix (unhex P) (replace_first (js ''sha256='') [] signature)) =
                   length (hex_prefix (unhex P) (hmac_sha256_hex P appSecret payload))
                then LDebug else LError)) w"
proof -
  have "length (buffer_from_hex (unhex P) (hmac_sha256_hex P appSecret payload)) =
        length (buffer_from_hex (unhex P) (replace_first (js ''sha256='') [] signature)) \<longleftrightarrow>
      length (hex_prefix (unhex P) (replace_first (js ''sha256='') [] signature)) =
        length (hex_prefix (unhex P) (hmac_sha256_hex P appSecret payload))"
    using length_buffer_from_hex[of "unhex P" "hmac_sha256_hex P appSecret payload"]
      length_buffer_from_hex[of "unhex P" "replace_first (js ''sha256='') [] signature"]
    by linarith
  then show ?thesis
    by (simp add: verifyWebhookSignature_def timingSafeEqual_def Let_def)
qed

lemma verify_accepts_iff:
  assumes "digit_table (unhex P)"
  shows "fst (verifyWebhookSignature P appSecret w payload signature) \<longleftrightarrow>
     map (digit_value (unhex P))
       (hex_prefix (unhex P) (replace_first (js ''sha256='') [] signature)) =
     map (digit_value (unhex P)) (hex_prefix (unhex P) (hmac_sha256_hex P appSecret payload))"
proof -
  let ?provided = "hex_prefix (unhex P) (replace_first (js ''sha256='') [] signature)"
  let ?expected = "hex_prefix (unhex P) (hmac_sha256_hex P appSecret payload)"
  have "fst (verifyWebhookSignature P appSecret w payload signature) \<longleftrightarrow>
      buffer_from_hex (unhex P) ?expected = buffer_from_hex (unhex P) ?provided"
    by (simp only: verifyWebhookSignature_result buffer_from_hex_prefix)
  also have "\<dots> \<longleftrightarrow> map (digit_value (unhex P)) ?expected = map (digit_value (unhex P)) ?provided"
    using assms by (rule decoded_eq_iff) (rule hex_prefix_idem)+
  finally show ?thesis by auto
qed

lemma verify_rejects_length:
  assumes "length (hex_prefix (unhex P) (replace_first (js ''sha256='') [] signature)) \<noteq>
      length (hex_prefix (unhex P) (hmac_sha256_hex P appSecret payload))"
  shows "\<not> fst (verifyWebhookSignature P appSecret w payload signature)"
proof
  assume "fst (verifyWebhookSignature P appSecret w payload signature)"
  then have "length (buffer_from_hex (unhex P) (hmac_sha256_hex P appSecret payload)) =
      length (buffer_from_hex (unhex P) (replace_first (js ''sha256='') [] signature))"
    by (simp add: verifyWebhookSignature_result)
  then show False
    using assms length_buffer_from_hex[of "unhex P" "hmac_sha256_hex P appSecret payload"]
      length_buffer_from_hex[of "unhex P" "replace_first (js ''sha256='') [] signature"]
    by linarith
qed

lemma replace_first_prefix: "pat \<noteq> [] \<Longrightarrow> replace_first pat rep (pat @ s) = rep @ s"
  by (cases pat) simp_all

lemma verify_trailing_ignored:
  assumes "hex_prefix (unhex P) (hmac_sha256_hex P appSecret payload) =
      hmac_sha256_hex P appSecret payload"
    and "hex_prefix (unhex P) rest = []"
  shows "fst (verifyWebhookSignature P appSecret w payload
           (js ''sha256='' @ hmac_sha256_hex P appSecret payload @ rest))"
proof -
  let ?digest = "hmac_sha256_hex P appSecret payload"
  have "replace_first (js ''sha256='') [] (js ''sha256='' @ ?digest @ rest) = ?digest @ rest"
    by (subst replace_first_prefix) (simp_all add: js_def)
  moreover have "hex_prefix (unhex P) (?digest @ rest) = ?digest"
    using hex_prefix_append[OF assms(1), of rest] assms(2) by simp
  then have "buffer_from_hex (unhex P) (?digest @ rest) = buffer_from_hex (unhex P) ?digest"
    by (metis buffer_from_hex_prefix)
  ultimately show ?thesis by (simp add: verifyWebhookSignature_result)
qed

lemma node_ascii_fields: "unhex node_ascii = low_byte_hex"
  "hmac_sha256_hex node_ascii k m = rfc4231_digest"
  by (simp_all add: node_ascii_def)

lemma node_ascii_digit_table: "digit_table (unhex node_ascii)"
  by (auto simp: digit_table_def node_ascii_fields low_byte_hex_def hex_digit_def
      split: if_splits)

lemma digest_read:
  "hex_prefix low_byte_hex rfc4231_digest = rfc4231_digest"
  "length rfc4231_digest = 64"
  by (simp_all add: rfc4231_digest_def js_def low_byte_hex_def hex_digit_def)

lemma shifted_read:
  "replace_first (js ''sha256='') [] shifted_signature = map (\<lambda>c. c + 256) rfc4231_digest"
  "hex_prefix low_byte_hex (map (\<lambda>c. c + 256) rfc4231_digest) =
     map (\<lambda>c. c + 256) rfc4231_digest"
  "map (digit_value low_byte_hex) (map (\<lambda>c. c + 256) rfc4231_digest) =
     map (digit_value low_byte_hex) rfc4231_digest"
  "list_all (\<lambda>c. hex_digit c = None) (map (\<lambda>c. c + 256) rfc4231_digest)"
  by (simp_all add: shifted_signature_def rfc4231_digest_def js_def low_byte_hex_def
      hex_digit_def digit_value_def)

lemma invalid_read:
  "replace_first (js ''sha256='') [] (js ''sha256=invalid-signature'') = js ''invalid-signature''"
  "hex_prefix low_byte_hex (js ''invalid-signature'') = []"
  "hex_prefix low_byte_hex (js ''zz'') = []"
  by (simp_all add: js_def low_byte_hex_def hex_digit_def)

text \<open>
  C9 (as amended). Verification never raises: whatever the payload and the signature, it
  returns a boolean and calls the logger once, at level error exactly when the two decoded
  buffers differ in length. What decides is the part of the signature that the decoder
  reads: after the first \<open>sha256=\<close> is removed, the longest prefix of pairs of code units
  that the digit table of the decoder accepts. For a digit table, whose values are below
  16, verification returns true exactly when that part has, digit by digit, the values of
  the digits of the digest; so it returns false whenever that part and the digest differ
  in length. Whatever follows that part is ignored: the digest followed by anything that
  does not begin with a pair of digits verifies as true.
\<close>

theorem verifyWebhookSignature_total:
  assumes "digit_table (unhex P)"
  shows "(fst (verifyWebhookSignature P appSecret w payload signature) \<longleftrightarrow>
       map (digit_value (unhex P))
         (hex_prefix (unhex P) (replace_first (js ''sha256='') [] signature)) =
       map (digit_value (unhex P))
         (hex_prefix (unhex P) (hmac_sha256_hex P appSecret payload))) \<and>
    (length (hex_prefix (unhex P) (replace_first (js ''sha256='') [] signature)) \<noteq>
     length (hex_prefix (unhex P) (hmac_sha256_hex P appSecret payload)) \<longrightarrow>
       \<not> fst (verifyWebhookSignature P appSecret w payload signature)) \<and>
    (\<forall>rest.
       hex_prefix (unhex P) (hmac_sha256_hex P appSecret payload) =
         hmac_sha256_hex P appSecret payload \<and>
       hex_prefix (unhex P) rest = [] \<longrightarrow>
         fst (verifyWebhookSignature P appSecret w payload
                (js ''sha256='' @ hmac_sha256_hex P appSecret payload @ rest))) \<and>
    snd (verifyWebhookSignature P appSecret w payload signature) =
      emit (Log (if length (hex_prefix (unhex P)
                      (replace_first (js ''sha256='') [] signature)) =
                    length (hex_prefix (unhex P) (hmac_sha256_hex P appSecret payload))
                 then LDebug else LError)) w"
proof (intro conjI allI impI)
  show "fst (verifyWebhookSignature P appSecret w payload signature) \<longleftrightarrow>
       map (digit_value (unhex P))
         (hex_prefix (unhex P) (replace_first (js ''sha256='') [] signature)) =
       map (digit_value (unhex P))
         (hex_prefix (unhex P) (hmac_sha256_hex P appSecret payload))"
    using assms by (rule verify_accepts_iff)
  show "\<not> fst (verifyWebhookSignature P appSecret w payload signature)"
    if "length (hex_prefix (unhex P) (replace_first (js ''sha256='') [] signature)) \<noteq>
      length (hex_prefix (unhex P) (hmac_sha256_hex P appSecret payload))"
    using that by (rule verify_rejects_length)
  show "fst (verifyWebhookSignature P appSecret w payload
                (js ''sha256='' @ hmac_sha256_hex P appSecret payload @ rest))"
    if "hex_prefix (unhex P) (hmac_sha256_hex P appSecret payload) =
         hmac_sha256_hex P appSecret payload \<and>
       hex_prefix (unhex P) rest = []" for rest
    using that by (intro verify_trailing_ignored) blast+
  show "snd (verifyWebhookSignature P appSecret w payload signature) =
      emit (Log (if length (hex_prefix (unhex P)
                      (replace_first (js ''sha256='') [] signature)) =
                    length (hex_prefix (unhex P) (hmac_sha256_hex P appSecret payload))
                 then LDebug else LError)) w"
    by (rule verifyWebhookSignature_world)
qed

text \<open>
  The theorem at the digit table of Node, which looks a code unit up by its low byte. The
  digest with every code unit moved up by 256 holds no hexadecimal character and verifies
  as true; the signature of the test suite, \<open>sha256=invalid-signature\<close>, of which the decoder
  reads nothing, does not.
\<close>

theorem verifyWebhookSignature_total_witness:
  "digit_table (unhex node_ascii) \<and>
   list_all (\<lambda>c. hex_digit c = None) (map (\<lambda>c. c + 256) rfc4231_digest) \<and>
   fst (verifyWebhookSignature node_ascii (js ''Jefe'') world0
          (js ''what do ya want for nothing?'') shifted_signature) \<and>
   \<not> fst (verifyWebhookSignature node_ascii (js ''Jefe'') world0
          (js ''what do ya want for nothing?'') (js ''sha256=invalid-signature''))"
proof -
  note t = verifyWebhookSignature_total[OF node_ascii_digit_table, of "js ''Jefe''" world0
      "js ''what do ya want for nothing?''"]
  have a: "fst (verifyWebhookSignature node_ascii (js ''Jefe'') world0
          (js ''what do ya want for nothing?'') shifted_signature)"
  proof -
    have "map (digit_value (unhex node_ascii)) (hex_prefix (unhex node_ascii)
          (replace_first (js ''sha256='') [] shifted_signature)) =
        map (digit_value (unhex node_ascii)) (hex_prefix (unhex node_ascii)
          (hmac_sha256_hex node_ascii (js ''Jefe'') (js ''what do ya want for nothing?'')))"
      by (simp only: node_ascii_fields shifted_read(1,2,3) digest_read(1))
    with t[of shifted_signature] show ?thesis by blast
  qed
  have "length (hex_prefix (unhex node_ascii)
        (replace_first (js ''sha256='') [] (js ''sha256=invalid-signature''))) \<noteq>
      length (hex_prefix (unhex node_ascii)
        (hmac_sha256_hex node_ascii (js ''Jefe'') (js ''what do ya want for nothing?'')))"
    by (simp add: node_ascii_fields invalid_read digest_read)
  with t[of "js ''sha256=invalid-signature''"]
  have b: "\<not> fst (verifyWebhookSignature node_ascii (js ''Jefe'') world0
          (js ''what do ya want for nothing?'') (js ''sha256=invalid-signature''))"
    by blast
  show ?thesis using node_ascii_digit_table shifted_read(4) a b by blast
qed

text \<open>
  C9 as stated fails in its parenthesis: a signature that is not well-formed hexadecimal
  is not always rejected. The digest followed by \<open>zz\<close> verifies as true.
\<close>

theorem malformed_signature_counterexample:
  "\<not> well_formed_hex (replace_first (js ''sha256='') [] padded_signature) \<and>
   \<not> well_formed_hex padded_signature \<and>
   fst (verifyWebhookSignature node_ascii (js ''Jefe'') world0
          (js ''what do ya want for nothing?'') padded_signature)"
proof (intro conjI)
  have s: "replace_first (js ''sha256='') [] padded_signature = rfc4231_digest @ js ''zz''"
    unfolding padded_signature_def by (subst replace_first_prefix) (simp_all add: js_def)
  show "\<not> well_formed_hex (replace_first (js ''sha256='') [] padded_signature)"
    by (simp add: s well_formed_hex_def) (simp add: js_def hex_digit_def)
  show "\<not> well_formed_hex padded_signature"
    by (simp add: padded_signature_def well_formed_hex_def) (simp add: js_def hex_digit_def)
  have "fst (verifyWebhookSignature node_ascii (js ''Jefe'') world0
          (js ''what do ya want for nothing?'')
          (js ''sha256='' @ hmac_sha256_hex node_ascii (js ''Jefe'')
             (js ''what do ya want for nothing?'') @ js ''zz''))"
    by (rule verify_trailing_ignored) (simp_all add: node_ascii_fields digest_read invalid_read)
  then show "fst (verifyWebhookSignature node_ascii (js ''Jefe'') world0
          (js ''what do ya want for nothing?'') padded_signature)"
    by (simp add: padded_signature_def node_ascii_fields)
qed

section \<open>The pipeline: verified properties\<close>

lemma same_store_refl: "same_store w w"
  by (simp add: same_store_def)

lemma same_store_trans: "same_store a b \<Longrightarrow> same_store b c \<Longrightarrow> same_store a c"
  by (simp add: same_store_def)

lemma same_store_emit:
  "same_store w (emit (Log l) w)" "same_store w (emit TokenRequest w)"
  "same_store w (emit (CreatePostRequest p v t) w)"
  by (simp_all add: same_store_def emit_def append_requests_def)

lemma same_store_ticks: "same_store w (w\<lparr>ticks := n\<rparr>)"
  by (simp add: same_store_def append_requests_def)

lemma same_store_Date_now: "same_store w (snd (Date_now w))"
  by (simp add: Date_now_def same_store_ticks)

lemma same_store_filterPost: "same_store w (snd (filterPost P configured this w post))"
  by (simp add: filterPost_world same_store_def append_requests_def)

lemma same_store_refresh: "same_store w (snd (snd (refreshAccessToken (g, w))))"
  by (simp add: refreshAccessToken_def Let_def Date_now_def emit_def same_store_def
      append_requests_def split: sum.split prod.split)

lemma same_store_getValid: "same_store w (snd (snd (getValidAccessToken (g, w))))"
proof -
  have "same_store w (snd (snd (refreshAccessToken (g, w\<lparr>ticks := Suc (ticks w)\<rparr>))))"
    by (rule same_store_trans[OF same_store_ticks same_store_refresh])
  then show ?thesis
    by (simp add: getValidAccessToken_cases same_store_refresh same_store_ticks)
qed

lemma same_store_createLocalPost:
  "same_store w (snd (snd (createLocalPost P (g, w) post)))"
proof -
  obtain res g1 w1 where gv: "getValidAccessToken (g, w) = (res, g1, w1)"
    by (cases "getValidAccessToken (g, w)") auto
  then have s: "same_store w w1" using same_store_getValid[of w g] by simp
  have "same_store w1 (snd (snd (createLocalPost P (g, w) post)))"
    by (cases res)
      (simp_all add: createLocalPost_def gv Let_def emit_def same_store_def append_requests_def
        split: sum.split)
  with s show ?thesis by (rule same_store_trans)
qed

lemma logSync_store:
  assumes "same_store w w1"
  shows "append_requests (logSync w1 r) = append_requests w @ [r]"
    and "append_fault (logSync w1 r) = append_fault w"
    and "ledger (logSync w1 r) =
      (if append_fault w then ledger w
       else Some ((case ledger w of None \<Rightarrow> [] | Some ls \<Rightarrow> ls) @ [Entry r]))"
  using assms by (simp_all add: logSync_def same_store_def emit_def append_requests_def Let_def)


lemma same_store_filter_world: "same_store w (filter_world w)"
  unfolding filter_world_def
  by (rule same_store_trans[OF same_store_ticks same_store_emit(1)])

lemma same_store_two_ticks: "same_store w (snd (Date_now (snd (Date_now w))))"
  by (rule same_store_trans[OF same_store_Date_now same_store_Date_now])

lemma same_store_after:
  assumes "same_store w w1"
  shows "append_requests (emit (Log l) (snd (Date_now (logSync (snd (Date_now (snd (Date_now w1)))) r)))) =
      append_requests w @ [r]"
    and "ledger (emit (Log l) (snd (Date_now (logSync (snd (Date_now (snd (Date_now w1)))) r)))) =
      (if append_fault w then ledger w
       else Some ((case ledger w of None \<Rightarrow> [] | Some ls \<Rightarrow> ls) @ [Entry r]))"
    and "append_requests (emit (Log l) (logSync (snd (Date_now (snd (Date_now w1)))) r)) =
      append_requests w @ [r]"
    and "ledger (emit (Log l) (logSync (snd (Date_now (snd (Date_now w1)))) r)) =
      (if append_fault w then ledger w
       else Some ((case ledger w of None \<Rightarrow> [] | Some ls \<Rightarrow> ls) @ [Entry r]))"
proof -
  have s: "same_store w (snd (Date_now (snd (Date_now w1))))"
    by (rule same_store_trans[OF assms same_store_two_ticks])
  note L = logSync_store[OF s, of r]
  have e: "\<And>x. append_requests (emit (Log l) x) = append_requests x"
    "\<And>x. ledger (emit (Log l) x) = ledger x"
    "\<And>x. append_requests (snd (Date_now x)) = append_requests x"
    "\<And>x. ledger (snd (Date_now x)) = ledger x"
    by (simp_all add: emit_def append_requests_def Date_now_def)
  show "append_requests (emit (Log l) (snd (Date_now (logSync (snd (Date_now (snd (Date_now w1)))) r)))) =
      append_requests w @ [r]"
    by (simp only: e L)
  show "ledger (emit (Log l) (snd (Date_now (logSync (snd (Date_now (snd (Date_now w1)))) r)))) =
      (if append_fault w then ledger w
       else Some ((case ledger w of None \<Rightarrow> [] | Some ls \<Rightarrow> ls) @ [Entry r]))"
    by (simp only: e L)
  show "append_requests (emit (Log l) (logSync (snd (Date_now (snd (Date_now w1)))) r)) =
      append_requests w @ [r]"
    by (simp only: e L)
  show "ledger (emit (Log l) (logSync (snd (Date_now (snd (Date_now w1)))) r)) =
      (if append_fault w then ledger w
       else Some ((case ledger w of None \<Rightarrow> [] | Some ls \<Rightarrow> ls) @ [Entry r]))"
    by (simp only: e L)
qed

lemma processSinglePost_cases:
  assumes fp: "filterPost P configured flt (filter_world w) post = (v, w3)"
    and cl: "createLocalPost P (g, w3) post = (res, g', w4)"
  shows "\<exists>r. snd (processSinglePost P configured flt (g, w) post) =
      (if \<not> shouldSync v
       then emit (Log LInfo) (logSync (snd (Date_now (snd (Date_now w3)))) r)
       else emit (Log (case res of Inr name \<Rightarrow> LInfo | Inl message \<Rightarrow> LError))
              (snd (Date_now (logSync (snd (Date_now (snd (Date_now w4)))) r)))) \<and>
     instagramPostId r = post_id post \<and>
     instagramCaption r = caption post \<and>
     instagramMediaUrl r = media_url post \<and>
     status r = (if \<not> shouldSync v then skipped
                 else case res of Inr name \<Rightarrow> success | Inl message \<Rightarrow> failed) \<and>
     gbpPostId r = (if \<not> shouldSync v then None
                    else case res of Inr name \<Rightarrow> Some name | Inl message \<Rightarrow> None) \<and>
     error_text r = (if \<not> shouldSync v then None
                     else case res of Inr name \<Rightarrow> None | Inl message \<Rightarrow> Some message)"
proof -
  have fp': "filterPost P configured flt
      (emit (Log LInfo) (snd (Date_now (snd (Date_now w))))) post = (v, w3)"
    using fp by (simp add: filter_world_def Date_now_def)
  show ?thesis
  proof (cases "shouldSync v")
    case False
    then show ?thesis
      apply (simp add: processSinglePost_def split_beta Let_def fp')
      apply (rule exI)
      apply (rule conjI)
       apply (rule refl)
      apply simp
      done
  next
    case True
    show ?thesis
    proof (cases res)
      case (Inl message)
      with True show ?thesis
        apply (simp add: processSinglePost_def split_beta Let_def fp' cl)
        apply (rule exI)
        apply (rule conjI)
         apply (rule refl)
        apply simp
        done
    next
      case (Inr name)
      with True show ?thesis
        apply (simp add: processSinglePost_def split_beta Let_def fp' cl)
        apply (rule exI)
        apply (rule conjI)
         apply (rule refl)
        apply simp
        done
    qed
  qed
qed


lemma trace_Date_now: "trace (snd (Date_now w)) = trace w"
  by (simp add: Date_now_def)

lemma logSync_trace:
  "trace (logSync w r) = trace w @ [AppendFile r, Log (if append_fault w then LError else LInfo)]"
  by (simp add: logSync_def emit_def Let_def)

lemma prefix_emit: "prefix (trace w) (trace (emit e w))"
  by (simp add: emit_def)

lemma prefix_filterPost: "prefix (trace w) (trace (snd (filterPost P configured this w post)))"
  by (simp add: filterPost_world)

lemma prefix_refresh: "prefix (trace w) (trace (snd (snd (refreshAccessToken (g, w)))))"
  by (simp add: refreshAccessToken_def Let_def Date_now_def emit_def split: sum.split prod.split)

lemma prefix_getValid: "prefix (trace w) (trace (snd (snd (getValidAccessToken (g, w)))))"
  using prefix_refresh[of w g] prefix_refresh[of "w\<lparr>ticks := Suc (ticks w)\<rparr>" g]
  by (simp add: getValidAccessToken_cases)

lemma prefix_createLocalPost:
  "prefix (trace w) (trace (snd (snd (createLocalPost P (g, w) post))))"
proof -
  obtain res g1 w1 where gv: "getValidAccessToken (g, w) = (res, g1, w1)"
    by (cases "getValidAccessToken (g, w)") auto
  then have s: "prefix (trace w) (trace w1)" using prefix_getValid[of w g] by simp
  have "prefix (trace w1) (trace (snd (snd (createLocalPost P (g, w) post))))"
    by (cases res) (simp_all add: createLocalPost_def gv Let_def emit_def split: sum.split)
  with s show ?thesis by (rule prefix_order.trans)
qed

lemma prefix_filter_world: "prefix (trace w) (trace (filter_world w))"
  by (simp add: filter_world_def emit_def)

lemma processSinglePost_trace:
  assumes fp: "filterPost P configured flt (filter_world w) post = (v, w3)"
    and cl: "createLocalPost P (g, w3) post = (res, g', w4)"
    and final: "snd (processSinglePost P configured flt (g, w) post) =
      (if \<not> shouldSync v
       then emit (Log LInfo) (logSync (snd (Date_now (snd (Date_now w3)))) r)
       else emit (Log (case res of Inr name \<Rightarrow> LInfo | Inl message \<Rightarrow> LError))
              (snd (Date_now (logSync (snd (Date_now (snd (Date_now w4)))) r))))"
  shows "\<exists>before. trace (snd (processSinglePost P configured flt (g, w) post)) =
      trace w @ before @
        [AppendFile r, Log (if append_fault w then LError else LInfo),
         Log (if \<not> shouldSync v then LInfo
              else case res of Inr name \<Rightarrow> LInfo | Inl message \<Rightarrow> LError)]"
proof -
  have p3: "prefix (trace w) (trace w3)"
    using prefix_order.trans[OF prefix_filter_world prefix_filterPost, of w P configured flt post]
      fp by simp
  have p4: "prefix (trace w) (trace w4)"
    using prefix_order.trans[OF p3 prefix_createLocalPost, of P g post] cl by simp
  have s3: "same_store w w3"
    using same_store_trans[OF same_store_filter_world same_store_filterPost, of w P configured
        flt post] fp by simp
  have s4: "same_store w w4"
    using same_store_trans[OF s3 same_store_createLocalPost, of P g post] cl by simp
  have f3: "append_fault (snd (Date_now (snd (Date_now w3)))) = append_fault w"
    using same_store_trans[OF s3 same_store_two_ticks] by (simp add: same_store_def)
  have f4: "append_fault (snd (Date_now (snd (Date_now w4)))) = append_fault w"
    using same_store_trans[OF s4 same_store_two_ticks] by (simp add: same_store_def)
  show ?thesis
  proof (cases "shouldSync v")
    case False
    from p3 obtain before where "trace w3 = trace w @ before" by (auto simp: prefix_def)
    then have "trace (snd (processSinglePost P configured flt (g, w) post)) =
        trace w @ before @ [AppendFile r, Log (if append_fault w then LError else LInfo),
          Log LInfo]"
      using False by (simp add: final emit_def logSync_trace trace_Date_now f3)
    then show ?thesis using False by auto
  next
    case True
    from p4 obtain before where "trace w4 = trace w @ before" by (auto simp: prefix_def)
    then have "trace (snd (processSinglePost P configured flt (g, w) post)) =
        trace w @ before @ [AppendFile r, Log (if append_fault w then LError else LInfo),
          Log (case res of Inr name \<Rightarrow> LInfo | Inl message \<Rightarrow> LError)]"
      using True by (simp add: final emit_def logSync_trace trace_Date_now f4)
    then show ?thesis using True by auto
  qed
qed

lemma processSinglePost_record:
  "\<exists>r. append_requests (snd (processSinglePost P configured flt (g, w) post)) =
          append_requests w @ [r] \<and>
        ledger (snd (processSinglePost P configured flt (g, w) post)) =
          (if append_fault w then ledger w
           else Some ((case ledger w of None \<Rightarrow> [] | Some ls \<Rightarrow> ls) @ [Entry r])) \<and>
        instagramPostId r = post_id post \<and>
        status r =
          (if \<not> shouldSync (fst (filterPost P configured flt (filter_world w) post)) then skipped
           else case fst (createLocalPost P
                    (g, snd (filterPost P configured flt (filter_world w) post)) post) of
                  Inr name \<Rightarrow> success
                | Inl message \<Rightarrow> failed) \<and>
        gbpPostId r =
          (if \<not> shouldSync (fst (filterPost P configured flt (filter_world w) post)) then None
           else case fst (createLocalPost P
                    (g, snd (filterPost P configured flt (filter_world w) post)) post) of
                  Inr name \<Rightarrow> Some name
                | Inl message \<Rightarrow> None) \<and>
        error_text r =
          (if \<not> shouldSync (fst (filterPost P configured flt (filter_world w) post)) then None
           else case fst (createLocalPost P
                    (g, snd (filterPost P configured flt (filter_world w) post)) post) of
                  Inr name \<Rightarrow> None
                | Inl message \<Rightarrow> Some message) \<and>
        (\<exists>before. trace (snd (processSinglePost P configured flt (g, w) post)) =
           trace w @ before @
             [AppendFile r, Log (if append_fault w then LError else LInfo),
              Log (if \<not> shouldSync (fst (filterPost P configured flt (filter_world w) post))
                   then LInfo
                   else case fst (createLocalPost P
                            (g, snd (filterPost P configured flt (filter_world w) post)) post) of
                          Inr name \<Rightarrow> LInfo
                        | Inl message \<Rightarrow> LError)])"
proof -
  obtain v w3 where fp: "filterPost P configured flt (filter_world w) post = (v, w3)"
    by (cases "filterPost P configured flt (filter_world w) post") auto
  obtain res g' w4 where cl: "createLocalPost P (g, w3) post = (res, g', w4)"
    by (cases "createLocalPost P (g, w3) post") auto
  have s3: "same_store w w3"
    using same_store_trans[OF same_store_filter_world same_store_filterPost, of w P configured
        flt post] fp by simp
  have s4: "same_store w w4"
    using same_store_trans[OF s3 same_store_createLocalPost, of P g post] cl by simp
  from processSinglePost_cases[OF fp cl] obtain r where
    final: "snd (processSinglePost P configured flt (g, w) post) =
      (if \<not> shouldSync v
       then emit (Log LInfo) (logSync (snd (Date_now (snd (Date_now w3)))) r)
       else emit (Log (case res of Inr name \<Rightarrow> LInfo | Inl message \<Rightarrow> LError))
              (snd (Date_now (logSync (snd (Date_now (snd (Date_now w4)))) r))))"
    and fields: "instagramPostId r = post_id post"
      "status r = (if \<not> shouldSync v then skipped
                 else case res of Inr name \<Rightarrow> success | Inl message \<Rightarrow> failed)"
      "gbpPostId r = (if \<not> shouldSync v then None
                    else case res of Inr name \<Rightarrow> Some name | Inl message \<Rightarrow> None)"
      "error_text r = (if \<not> shouldSync v then None
                     else case res of Inr name \<Rightarrow> None | Inl message \<Rightarrow> Some message)"
    by blast
  have a: "append_requests (snd (processSinglePost P configured flt (g, w) post)) =
      append_requests w @ [r]"
    unfolding final
    by (cases "shouldSync v") (simp_all only: same_store_after[OF s3] same_store_after[OF s4]
        if_True if_False not_True_eq_False not_False_eq_True)
  have l: "ledger (snd (processSinglePost P configured flt (g, w) post)) =
      (if append_fault w then ledger w
       else Some ((case ledger w of None \<Rightarrow> [] | Some ls \<Rightarrow> ls) @ [Entry r]))"
    unfolding final
    by (cases "shouldSync v") (simp_all only: same_store_after[OF s3] same_store_after[OF s4]
        if_True if_False not_True_eq_False not_False_eq_True)
  note t = processSinglePost_trace[OF fp cl final]
  show ?thesis
    apply (simp only: fp cl fst_conv snd_conv)
    using a l fields t apply blast
    done
qed

lemma createLocalPost_accepted:
  assumes "no_token g" "token_reply w = Inr (tok, e)" "post_reply w = Inr name"
  shows "fst (createLocalPost P (g, w) post) = Inr name"
  using assms
  by (simp add: createLocalPost_def getValidAccessToken_cases refreshAccessToken_def Let_def
      Date_now_def emit_def)

lemma lunch_post_eligible_in_pipeline:
  "shouldSync (fst (filterPost node_ascii configured_tag meo_filter (filter_world w0) lunch_post))"
  if "clock w0 (Suc (Suc (ticks w0))) = 1700000000002" for w0
proof -
  have "fst (filterPost node_ascii configured_tag meo_filter (filter_world w0) lunch_post) =
     \<lparr>shouldSync = True, matchedHashtags = extractHashtags node_ascii (caption lunch_post),
       reason = None\<rparr>"
  proof (rule filterPost_eligible[where t = 1699999999000 and
        c = "js ''Great lunch today #MEO #food''"])
    show "targetHashtag meo_filter \<in>
      set (map (toLowerCase node_ascii) (extractHashtags node_ascii (caption lunch_post)))"
      by (simp add: lunch_post_tags meo_filter_target)
    show "length (extractHashtags node_ascii (caption lunch_post)) \<le> 20"
      by (simp add: lunch_post_tags)
    show "caption lunch_post = Some (js ''Great lunch today #MEO #food'')"
      by (rule lunch_post_text)
    show "10 \<le> length (trim (strip_tags (tag_char node_ascii)
        (js ''Great lunch today #MEO #food'')))"
      by (simp add: lunch_post_text)
    show "clock (filter_world w0) (ticks (filter_world w0)) - 1699999999000 \<le> 86400000"
      using that by (simp add: filter_world_def emit_def)
  qed (simp_all add: menu_post_fields)
  then show ?thesis by simp
qed

lemma pipeline_worlds:
  "clock world0 (Suc (Suc (ticks world0))) = 1700000000002"
  "clock world_disk_full (Suc (Suc (ticks world_disk_full))) = 1700000000002"
  "append_fault world_disk_full" "ledger world_disk_full = None"
  "\<not> append_fault world0" "ledger world0 = None"
  "post_reply world0 = Inr (js ''accounts/1/locations/2/localPosts/3'')"
  by (simp_all add: world0_def world_disk_full_def)

lemma filterPost_replies:
  "token_reply (snd (filterPost P configured this w post)) = token_reply w"
  "post_reply (snd (filterPost P configured this w post)) = post_reply w"
  "token_reply (filter_world w) = token_reply w" "post_reply (filter_world w) = post_reply w"
  by (simp_all add: filterPost_world filter_world_def emit_def)

text \<open>
  C1 (as amended). For every candidate, \<open>processSinglePost\<close> hands exactly one Sync Record
  to the ledger (one call of \<open>logSync\<close>, whatever the manager, the world and the candidate
  are). The record names the candidate; its status is \<open>skipped\<close> when the verdict of the
  filter is ineligible, \<open>success\<close> with the listing id when publication returns one, and
  \<open>failed\<close> with the error text when publication raises. The record is appended to the
  ledger file as its last line when the write succeeds; when the write fails the file is
  left as it was. The trace of the run ends with the write of the record, the log call of
  \<open>logSync\<close> (at level error when the write fails, at level info when it succeeds) and the
  closing log call of the pipeline (at level error when publication raised).
\<close>

theorem processSinglePost_one_record:
  "\<exists>r. append_requests (snd (processSinglePost P configured flt (g, w) post)) =
          append_requests w @ [r] \<and>
        length (append_requests (snd (processSinglePost P configured flt (g, w) post))) =
          Suc (length (append_requests w)) \<and>
        ledger (snd (processSinglePost P configured flt (g, w) post)) =
          (if append_fault w then ledger w
           else Some ((case ledger w of None \<Rightarrow> [] | Some ls \<Rightarrow> ls) @ [Entry r])) \<and>
        instagramPostId r = post_id post \<and>
        status r =
          (if \<not> shouldSync (fst (filterPost P configured flt (filter_world w) post)) then skipped
           else case fst (createLocalPost P
                    (g, snd (filterPost P configured flt (filter_world w) post)) post) of
                  Inr name \<Rightarrow> success
                | Inl message \<Rightarrow> failed) \<and>
        gbpPostId r =
          (if \<not> shouldSync (fst (filterPost P configured flt (filter_world w) post)) then None
           else case fst (createLocalPost P
                    (g, snd (filterPost P configured flt (filter_world w) post)) post) of
                  Inr name \<Rightarrow> Some name
                | Inl message \<Rightarrow> None) \<and>
        error_text r =
          (if \<not> shouldSync (fst (filterPost P configured flt (filter_world w) post)) then None
           else case fst (createLocalPost P
                    (g, snd (filterPost P configured flt (filter_world w) post)) post) of
                  Inr name \<Rightarrow> None
                | Inl message \<Rightarrow> Some message) \<and>
        (\<exists>before. trace (snd (processSinglePost P configured flt (g, w) post)) =
           trace w @ before @
             [AppendFile r, Log (if append_fault w then LError else LInfo),
              Log (if \<not> shouldSync (fst (filterPost P configured flt (filter_world w) post))
                   then LInfo
                   else case fst (createLocalPost P
                            (g, snd (filterPost P configured flt (filter_world w) post)) post) of
                          Inr name \<Rightarrow> LInfo
                        | Inl message \<Rightarrow> LError)])"
proof -
  from processSinglePost_record[of P configured flt g w post] obtain r where
    r: "append_requests (snd (processSinglePost P configured flt (g, w) post)) =
          append_requests w @ [r]"
    and rest: "ledger (snd (processSinglePost P configured flt (g, w) post)) =
          (if append_fault w then ledger w
           else Some ((case ledger w of None \<Rightarrow> [] | Some ls \<Rightarrow> ls) @ [Entry r])) \<and>
        instagramPostId r = post_id post \<and>
        status r =
          (if \<not> shouldSync (fst (filterPost P configured flt (filter_world w) post)) then skipped
           else case fst (createLocalPost P
                    (g, snd (filterPost P configured flt (filter_world w) post)) post) of
                  Inr name \<Rightarrow> success
                | Inl message \<Rightarrow> failed) \<and>
        gbpPostId r =
          (if \<not> shouldSync (fst (filterPost P configured flt (filter_world w) post)) then None
           else case fst (createLocalPost P
                    (g, snd (filterPost P configured flt (filter_world w) post)) post) of
                  Inr name \<Rightarrow> Some name
                | Inl message \<Rightarrow> None) \<and>
        error_text r =
          (if \<not> shouldSync (fst (filterPost P configured flt (filter_world w) post)) then None
           else case fst (createLocalPost P
                    (g, snd (filterPost P configured flt (filter_world w) post)) post) of
                  Inr name \<Rightarrow> None
                | Inl message \<Rightarrow> Some message) \<and>
        (\<exists>before. trace (snd (processSinglePost P configured flt (g, w) post)) =
           trace w @ before @
             [AppendFile r, Log (if append_fault w then LError else LInfo),
              Log (if \<not> shouldSync (fst (filterPost P configured flt (filter_world w) post))
                   then LInfo
                   else case fst (createLocalPost P
                            (g, snd (filterPost P configured flt (filter_world w) post)) post) of
                          Inr name \<Rightarrow> LInfo
                        | Inl message \<Rightarrow> LError)])"
    by blast
  have "length (append_requests (snd (processSinglePost P configured flt (g, w) post))) =
      Suc (length (append_requests w))"
    by (simp add: r)
  with r rest show ?thesis by blast
qed

text \<open>
  The theorem at an eligible candidate, a manager without a token and a world without a
  ledger file: the file then holds one record, of status \<open>success\<close>, with the listing id.
\<close>

theorem processSinglePost_one_record_witness:
  "\<exists>r. ledger (snd (processSinglePost node_ascii configured_tag meo_filter (new_gbp, world0)
            lunch_post)) = Some [Entry r] \<and>
        instagramPostId r = js ''17900001'' \<and> status r = success \<and>
        gbpPostId r = Some (js ''accounts/1/locations/2/localPosts/3'')"
proof -
  have e: "shouldSync (fst (filterPost node_ascii configured_tag meo_filter (filter_world world0)
      lunch_post))"
    by (rule lunch_post_eligible_in_pipeline) (rule pipeline_worlds)
  have p: "fst (createLocalPost node_ascii (new_gbp,
      snd (filterPost node_ascii configured_tag meo_filter (filter_world world0) lunch_post))
      lunch_post) = Inr (js ''accounts/1/locations/2/localPosts/3'')"
    by (rule createLocalPost_accepted[where tok = "js ''ya29.a0''" and e = 3600])
      (simp_all add: filterPost_replies world0_facts pipeline_worlds)
  have i: "post_id lunch_post = js ''17900001''"
    by (simp add: lunch_post_def menu_post_def)
  from processSinglePost_one_record[of node_ascii configured_tag meo_filter new_gbp world0
      lunch_post]
  show ?thesis
    by (simp add: e p i pipeline_worlds) blast
qed

text \<open>
  C1 as stated fails when the write to the ledger fails: the candidate is processed, and
  no record is appended.
\<close>

theorem lost_record_counterexample:
  "ledger world_disk_full = None \<and>
   shouldSync (fst (filterPost node_ascii configured_tag meo_filter (filter_world world_disk_full)
      lunch_post)) \<and>
   ledger (snd (processSinglePost node_ascii configured_tag meo_filter
      (new_gbp, world_disk_full) lunch_post)) = None"
proof -
  have e: "shouldSync (fst (filterPost node_ascii configured_tag meo_filter
      (filter_world world_disk_full) lunch_post))"
    by (rule lunch_post_eligible_in_pipeline) (rule pipeline_worlds)
  from processSinglePost_record[of node_ascii configured_tag meo_filter new_gbp world_disk_full
      lunch_post]
  have "ledger (snd (processSinglePost node_ascii configured_tag meo_filter
      (new_gbp, world_disk_full) lunch_post)) = None"
    by (auto simp: pipeline_worlds)
  with e show ?thesis by (simp add: pipeline_worlds)
qed

end
